theory Spec2Isabelle
  imports Main "HOL-Library.AList"
begin

section \<open>Strings\<close>

text \<open>
  A string of the program is a list of characters; a character stands for a code unit
  below 256. The white space of \<^verbatim>\<open>trim\<close> and of the pattern \<^verbatim>\<open>\s\<close> in that range is
  tab, line feed, vertical tab, form feed, carriage return, space and no-break space.
\<close>

abbreviation TAB :: char where "TAB \<equiv> CHR 0x09"
abbreviation LF :: char where "LF \<equiv> CHR 0x0A"
abbreviation CR :: char where "CR \<equiv> CHR 0x0D"

definition whiteSpace :: "char list" where
  "whiteSpace = [CHR 0x09, CHR 0x0A, CHR 0x0B, CHR 0x0C, CHR 0x0D, CHR 0x20, CHR 0xA0]"

definition isSpace :: "char \<Rightarrow> bool" where
  "isSpace c = (c \<in> set whiteSpace)"

definition trim :: "string \<Rightarrow> string" where
  "trim s = rev (dropWhile isSpace (rev (dropWhile isSpace s)))"

text \<open>\<^verbatim>\<open>s.split(d)\<close> for a one-character separator: the fields between the occurrences.\<close>

fun splitFields :: "char \<Rightarrow> string \<Rightarrow> string \<Rightarrow> string list" where
  "splitFields d cur [] = [cur]"
| "splitFields d cur (c # cs) =
     (if c = d then cur # splitFields d [] cs else splitFields d (cur @ [c]) cs)"

definition splitChar :: "char \<Rightarrow> string \<Rightarrow> string list" where
  "splitChar d s = splitFields d [] s"

text \<open>
  \<^verbatim>\<open>s.split(/\s{2,}|\s+/)\<close>: at the first white-space character of a run either
  alternative consumes the whole run, so the separators are the maximal runs.
\<close>

function splitRuns :: "string \<Rightarrow> string \<Rightarrow> string list" where
  "splitRuns cur [] = [cur]"
| "splitRuns cur (c # cs) =
     (if isSpace c then cur # splitRuns [] (dropWhile isSpace cs)
      else splitRuns (cur @ [c]) cs)"
  by pat_completeness auto
termination
  by (relation "measure (\<lambda>(cur, s). length s)")
     (auto simp: less_Suc_eq_le length_dropWhile_le)

definition splitWhitespace :: "string \<Rightarrow> string list" where
  "splitWhitespace s = splitRuns [] s"

text \<open>\<^verbatim>\<open>text.split(/\r?\n/)\<close>: a line ends at a line feed, with the carriage return before it.\<close>

fun splitLinesFrom :: "string \<Rightarrow> string \<Rightarrow> string list" where
  "splitLinesFrom cur [] = [cur]"
| "splitLinesFrom cur (c # cs) =
     (if c = LF then cur # splitLinesFrom [] cs
      else if c = CR \<and> take 1 cs = [LF] then cur # splitLinesFrom [] (drop 1 cs)
      else splitLinesFrom (cur @ [c]) cs)"

definition splitLines :: "string \<Rightarrow> string list" where
  "splitLines s = splitLinesFrom [] s"

text \<open>\<^verbatim>\<open>parts.join(' ')\<close>.\<close>

fun joinSpace :: "string list \<Rightarrow> string" where
  "joinSpace [] = []"
| "joinSpace [p] = p"
| "joinSpace (p # q # ps) = p @ CHR '' '' # joinSpace (q # ps)"

text \<open>\<^verbatim>\<open>s.indexOf(c)\<close>: the position of the first occurrence, or -1.\<close>

definition indexOf :: "string \<Rightarrow> char \<Rightarrow> int" where
  "indexOf s c = (if c \<in> set s then int (length (takeWhile (\<lambda>x. x \<noteq> c) s)) else - 1)"

text \<open>
  \<^verbatim>\<open>name.replace(/\.[^.]+$/, '')\<close>: the last dot is cut off with what follows it, when
  at least one character follows it.
\<close>

definition stripExt :: "string \<Rightarrow> string" where
  "stripExt name =
     (let ext = rev (takeWhile (\<lambda>c. c \<noteq> CHR ''.'') (rev name))
      in if CHR ''.'' \<in> set name \<and> ext \<noteq> [] then take (length name - length ext - 1) name
         else name)"

text \<open>\<^verbatim>\<open>String(s || '').trim()\<close> on a string.\<close>

definition normalize :: "string \<Rightarrow> string" where
  "normalize s = trim s"

text \<open>
  The header marker \<^verbatim>\<open>/^Measure:volume\b/i\<close>: the line starts with these fourteen
  characters in either case, and a word character does not follow them.
\<close>

definition upperAscii :: "char \<Rightarrow> char" where
  "upperAscii c =
     (case map_of (zip ''abcdefghijklmnopqrstuvwxyz'' ''ABCDEFGHIJKLMNOPQRSTUVWXYZ'') c of
        Some u \<Rightarrow> u
      | None \<Rightarrow> c)"

definition isWordChar :: "char \<Rightarrow> bool" where
  "isWordChar c =
     (c \<in> set ''abcdefghijklmnopqrstuvwxyzABCDEFGHIJKLMNOPQRSTUVWXYZ0123456789_'')"

definition isHeaderMarker :: "string \<Rightarrow> bool" where
  "isHeaderMarker line =
     (map upperAscii (take 14 line) = ''MEASURE:VOLUME'' \<and>
      (case drop 14 line of [] \<Rightarrow> True | c # _ \<Rightarrow> \<not> isWordChar c))"

section \<open>Values and the engine\<close>

text \<open>
  A metric value is a number or a string. What the engine computes in floating point is a
  parameter of the model: \<^verbatim>\<open>Number(s)\<close> on a string, the text of a number, the text
  the engine prints for one of its built-in functions after the keyword
  \<^verbatim>\<open>function\<close>, and \<^verbatim>\<open>s.replace(/p/g, r)\<close> for a pattern \<open>p\<close> of literal characters.
  The type \<open>'n\<close> is the type of the finite numbers.
\<close>

datatype 'n JSNumber = NaN | PosInfinity | NegInfinity | Finite 'n

datatype 'n Value = Num 'n | Str string

record 'n Engine =
  Number :: "string \<Rightarrow> 'n JSNumber"
  numberToString :: "'n \<Rightarrow> string"
  functionSource :: "string \<Rightarrow> string"
  replaceAll :: "string \<Rightarrow> string \<Rightarrow> string \<Rightarrow> string"

text \<open>
  \<^verbatim>\<open>coerceNumber\<close> is called on strings only; \<^verbatim>\<open>String(v ?? '')\<close> is the string
  itself. \<^verbatim>\<open>Number.isFinite\<close> holds of the finite numbers.
\<close>

definition coerceNumber :: "'n Engine \<Rightarrow> string \<Rightarrow> 'n Value" where
  "coerceNumber rt v =
     (let s = trim v
      in if s = [] then Str []
         else (case Number rt s of Finite num \<Rightarrow> Num num | _ \<Rightarrow> Str s))"

section \<open>Objects used as dictionaries\<close>

text \<open>
  The program keeps its dictionaries in objects created by \<^verbatim>\<open>{}\<close>. Such an object is
  modelled by its own properties, in the order of their creation; its prototype is
  \<^verbatim>\<open>Object.prototype\<close>, so reading a name that is not an own property finds what the
  prototype holds under it: one of eleven built-in functions, or, under
  \<^verbatim>\<open>__proto__\<close>, the prototype object itself. The operator \<^verbatim>\<open>in\<close> sees the
  inherited names as well.
\<close>

definition objectPrototypeFunctions :: "string list" where
  "objectPrototypeFunctions =
     [''constructor'', ''__defineGetter__'', ''__defineSetter__'', ''hasOwnProperty'',
      ''__lookupGetter__'', ''__lookupSetter__'', ''isPrototypeOf'',
      ''propertyIsEnumerable'', ''toString'', ''valueOf'', ''toLocaleString'']"

definition objectPrototypeKeys :: "string list" where
  "objectPrototypeKeys = ''__proto__'' # objectPrototypeFunctions"

datatype 'v Lookup = Own 'v | Builtin string | Prototype | Undefined

definition getProp :: "(string \<times> 'v) list \<Rightarrow> string \<Rightarrow> 'v Lookup" where
  "getProp obj k =
     (case map_of obj k of
        Some v \<Rightarrow> Own v
      | None \<Rightarrow>
          if k = ''__proto__'' then Prototype
          else if k \<in> set objectPrototypeFunctions then Builtin k
          else Undefined)"

text \<open>\<^verbatim>\<open>k in obj\<close>.\<close>

definition hasProperty :: "(string \<times> 'v) list \<Rightarrow> string \<Rightarrow> bool" where
  "hasProperty obj k = (k \<in> set objectPrototypeKeys \<or> k \<in> set (map fst obj))"

text \<open>
  \<^verbatim>\<open>obj[k] = v\<close> for a number or a string \<open>v\<close>: an own property keeps its place and
  takes the value, a new one is added last; under \<^verbatim>\<open>__proto__\<close> the inherited setter
  ignores a value that is not an object, and no property is created.
\<close>

definition setPrimitive :: "(string \<times> 'v) list \<Rightarrow> string \<Rightarrow> 'v \<Rightarrow> (string \<times> 'v) list" where
  "setPrimitive obj k v =
     (if k = ''__proto__'' \<and> k \<notin> set (map fst obj) then obj else AList.update k v obj)"

text \<open>
  \<^verbatim>\<open>obj[k] = v\<close> for an object \<open>v\<close>. Under \<^verbatim>\<open>__proto__\<close> the inherited setter makes
  \<open>v\<close> the prototype of \<open>obj\<close>; what \<open>obj\<close> inherits from then on is outside this
  model, which stops there with \<open>PrototypeReplaced\<close>. \<open>TypeError\<close> is the exception
  of the engine.
\<close>

datatype Stop = TypeError | PrototypeReplaced

definition setObject :: "(string \<times> 'v) list \<Rightarrow> string \<Rightarrow> 'v \<Rightarrow> Stop + (string \<times> 'v) list" where
  "setObject obj k v =
     (if k = ''__proto__'' \<and> k \<notin> set (map fst obj) then Inl PrototypeReplaced
      else Inr (AList.update k v obj))"

text \<open>
  \<^verbatim>\<open>Object.keys(obj)\<close>: the own names that are array indices (the decimal numerals of
  the integers below \<open>2\<^sup>3\<^sup>2 - 1\<close>) in ascending order, then the other names in the
  order of their creation.
\<close>

definition isDigit :: "char \<Rightarrow> bool" where
  "isDigit c = (c \<in> set ''0123456789'')"

definition digitValue :: "char \<Rightarrow> int" where
  "digitValue c = int (length (takeWhile (\<lambda>d. d \<noteq> c) ''0123456789''))"

definition decimalValue :: "string \<Rightarrow> int" where
  "decimalValue s = foldl (\<lambda>n c. 10 * n + digitValue c) 0 s"

definition isArrayIndex :: "string \<Rightarrow> bool" where
  "isArrayIndex k =
     (k \<noteq> [] \<and> list_all isDigit k \<and> (k = ''0'' \<or> take 1 k \<noteq> ''0'') \<and>
      decimalValue k < 4294967295)"

definition Object_keys :: "(string \<times> 'v) list \<Rightarrow> string list" where
  "Object_keys obj =
     sort_key decimalValue (filter isArrayIndex (map fst obj)) @
     filter (\<lambda>k. \<not> isArrayIndex k) (map fst obj)"

text \<open>
  The text of what a read returns, by \<^verbatim>\<open>String(x || '')\<close> or \<^verbatim>\<open>(x ?? '').toString()\<close>:
  \<open>own\<close> gives the text of an own value, a built-in function prints as its source, the
  prototype object as \<^verbatim>\<open>[object Object]\<close>, and nothing as the empty string.
\<close>

definition textOf :: "'n Engine \<Rightarrow> ('v \<Rightarrow> string) \<Rightarrow> 'v Lookup \<Rightarrow> string" where
  "textOf rt own x =
     (case x of
        Own v \<Rightarrow> own v
      | Builtin k \<Rightarrow> ''function'' @ functionSource rt k
      | Prototype \<Rightarrow> ''[object Object]''
      | Undefined \<Rightarrow> [])"

definition valueText :: "'n Engine \<Rightarrow> 'n Value \<Rightarrow> string" where
  "valueText rt v = (case v of Num n \<Rightarrow> numberToString rt n | Str s \<Rightarrow> s)"

section \<open>The subject record parser\<close>

record 'n ParsedSubject =
  metrics :: "(string \<times> 'n Value) list"
  order :: "string list"

definition splitByAny :: "string \<Rightarrow> string list" where
  "splitByAny line =
     (let tab = splitChar TAB line
      in if length tab > 1 then tab
         else (let csv = splitChar (CHR '','') line
               in if length csv > 1 then csv else splitWhitespace (trim line)))"

text \<open>The body of the loop over the lines.\<close>

definition parseLine :: "'n Engine \<Rightarrow> 'n ParsedSubject \<Rightarrow> string \<Rightarrow> 'n ParsedSubject" where
  "parseLine rt acc line =
     (if line = [] then acc
      else if isHeaderMarker line then acc
      else
        (let c = indexOf line (CHR '':'')
         in if c > 0 then
              (let k = trim (take (nat c) line);
                   v = trim (drop (nat (c + 1)) line)
               in acc\<lparr>order := (if k \<noteq> [] \<and> \<not> hasProperty (metrics acc) k
                                  then order acc @ [k] else order acc),
                       metrics := (if k \<noteq> [] then setPrimitive (metrics acc) k (coerceNumber rt v)
                                   else metrics acc)\<rparr>)
            else
              (let parts = splitByAny line
               in if length parts \<ge> 2 then
                    (let val = last parts;
                         key = joinSpace (butlast parts)
                     in acc\<lparr>order := (if key \<noteq> [] \<and> \<not> hasProperty (metrics acc) key
                                        then order acc @ [key] else order acc),
                             metrics := (if key \<noteq> []
                                         then setPrimitive (metrics acc) key (coerceNumber rt val)
                                         else metrics acc)\<rparr>)
                  else acc)))"

definition subjectLines :: "string \<Rightarrow> string list" where
  "subjectLines text = filter (\<lambda>l. l \<noteq> []) (map trim (splitLines text))"

definition parseSubjectTxt :: "'n Engine \<Rightarrow> string \<Rightarrow> 'n ParsedSubject" where
  "parseSubjectTxt rt text =
     foldl (parseLine rt) \<lparr>metrics = [], order = []\<rparr> (subjectLines text)"


section \<open>The file pool and the file resolver\<close>

text \<open>
  An uploaded file has a name and a text. The pool \<^verbatim>\<open>subjectFiles\<close> is an object
  whose own properties map names to files.
\<close>

record File =
  name :: string
  content :: string

type_synonym SubjectMap = "(string \<times> File) list"

text \<open>
  \<^verbatim>\<open>handleSubjectsInput\<close> indexes every file under its trimmed name and under that name
  without its extension.
\<close>

fun indexFiles :: "SubjectMap \<Rightarrow> File list \<Rightarrow> Stop + SubjectMap" where
  "indexFiles m [] = Inr m"
| "indexFiles m (f # fs) =
     (let full = normalize (name f);
          base = stripExt full
      in case setObject m full f of
           Inl e \<Rightarrow> Inl e
         | Inr m1 \<Rightarrow>
             (case setObject m1 base f of
                Inl e \<Rightarrow> Inl e
              | Inr m2 \<Rightarrow> indexFiles m2 fs))"

definition handleSubjectsInput :: "File list \<Rightarrow> Stop + SubjectMap" where
  "handleSubjectsInput files = indexFiles [] files"

text \<open>
  What \<^verbatim>\<open>resolveFileForId\<close> returns: a file of the pool, a value inherited from the
  prototype (truthy, and not a file), or \<^verbatim>\<open>undefined\<close>.
\<close>

datatype Resolved = IsFile File | NotAFile | NotFound

fun firstTruthy :: "SubjectMap \<Rightarrow> string list \<Rightarrow> Resolved" where
  "firstTruthy pool [] = NotFound"
| "firstTruthy pool (k # ks) =
     (case getProp pool k of
        Own f \<Rightarrow> IsFile f
      | Builtin b \<Rightarrow> NotAFile
      | Prototype \<Rightarrow> NotAFile
      | Undefined \<Rightarrow> firstTruthy pool ks)"

definition resolveFileForId :: "SubjectMap \<Rightarrow> string \<Rightarrow> Resolved" where
  "resolveFileForId pool idRaw =
     (let id = normalize idRaw;
          base = stripExt id;
          variants = [id, base, base @ ''.txt'']
      in firstTruthy pool variants)"

section \<open>The roster and the build\<close>

text \<open>
  The parsed roster: its rows are objects whose own properties map column names to
  strings; \<^verbatim>\<open>meta.fields\<close> may be absent.
\<close>

record ParsedTable =
  data :: "(string \<times> string) list list"
  metaFields :: "string list option"

record AppState =
  subjectFiles :: SubjectMap
  participantsParsed :: "ParsedTable option"
  idColumn :: string
  rowLabelTemplate :: string
  mergeCovariates :: bool

text \<open>
  What a build leaves: the table it returns, the warnings it sets, and the message of the
  alert it raises when it returns the empty table.
\<close>

record Matrix =
  header :: "string list"
  rows :: "string list list"
  warnings :: "string list"
  alert :: "string option"

definition formatRowLabel :: "'n Engine \<Rightarrow> string \<Rightarrow> string \<Rightarrow> string" where
  "formatRowLabel rt template idRaw =
     (let id = normalize idRaw;
          base = stripExt id
      in replaceAll rt ''{base}'' base (replaceAll rt ''{id}'' id template))"

text \<open>\<^verbatim>\<open>normalize(r[idColumn])\<close> on a roster row.\<close>

definition rowId :: "'n Engine \<Rightarrow> string \<Rightarrow> (string \<times> string) list \<Rightarrow> string" where
  "rowId rt col r = normalize (textOf rt (\<lambda>s. s) (getProp r col))"

definition subjectsOrderOf :: "'n Engine \<Rightarrow> string \<Rightarrow> (string \<times> string) list list \<Rightarrow> string list" where
  "subjectsOrderOf rt col pRows = filter (\<lambda>s. s \<noteq> []) (map (rowId rt col) pRows)"

text \<open>
  The first loop of \<^verbatim>\<open>buildMatrix\<close>: resolve and parse the files in roster order.
  Reading the text of what the resolver returned raises the exception when that is not a
  file.
\<close>

record 'n Collected =
  warningsLocal :: "string list"
  parsedById :: "(string \<times> 'n ParsedSubject) list"
  canonicalOrder :: "string list option"

fun collect :: "'n Engine \<Rightarrow> SubjectMap \<Rightarrow> string list \<Rightarrow> 'n Collected \<Rightarrow> Stop + 'n Collected" where
  "collect rt pool [] acc = Inr acc"
| "collect rt pool (sid # sids) acc =
     (case resolveFileForId pool sid of
        NotFound \<Rightarrow>
          collect rt pool sids
            (acc\<lparr>warningsLocal := warningsLocal acc @ [''Missing file for ID: '' @ sid]\<rparr>)
      | NotAFile \<Rightarrow> Inl TypeError
      | IsFile file \<Rightarrow>
          (let parsed = parseSubjectTxt rt (content file)
           in case setObject (parsedById acc) sid parsed of
                Inl e \<Rightarrow> Inl e
              | Inr byId \<Rightarrow>
                  collect rt pool sids
                    (acc\<lparr>parsedById := byId,
                         canonicalOrder :=
                           (if canonicalOrder acc = None \<and> order parsed \<noteq> []
                            then Some (order parsed) else canonicalOrder acc)\<rparr>)))"

text \<open>
  The second loop: the columns, and the set of the names seen. Iterating over the
  \<^verbatim>\<open>order\<close> of an inherited value, which has none, raises the exception.
\<close>

fun appendUnseen :: "string list \<Rightarrow> string list \<times> string set \<Rightarrow> string list \<times> string set" where
  "appendUnseen [] acc = acc"
| "appendUnseen (k # ks) (metricCols, seen) =
     (if k \<notin> seen then appendUnseen ks (metricCols @ [k], insert k seen)
      else appendUnseen ks (metricCols, seen))"

fun unify :: "(string \<times> 'n ParsedSubject) list \<Rightarrow> string list \<Rightarrow>
    string list \<times> string set \<Rightarrow> Stop + string list \<times> string set" where
  "unify byId [] acc = Inr acc"
| "unify byId (sid # sids) acc =
     (case getProp byId sid of
        Undefined \<Rightarrow> unify byId sids acc
      | Own p \<Rightarrow>
          unify byId sids (appendUnseen (Object_keys (metrics p)) (appendUnseen (order p) acc))
      | Builtin b \<Rightarrow> Inl TypeError
      | Prototype \<Rightarrow> Inl TypeError)"

text \<open>The third loop: one row for each subject.\<close>

definition buildRow :: "'n Engine \<Rightarrow> AppState \<Rightarrow> (string \<times> string) list list \<Rightarrow>
    (string \<times> 'n ParsedSubject) list \<Rightarrow> string list \<Rightarrow> string list \<Rightarrow> string \<Rightarrow> string list" where
  "buildRow rt st pRows byId metricCols covariateCols sid =
     (let metricsOf = (case getProp byId sid of Own p \<Rightarrow> metrics p | _ \<Rightarrow> [])
      in formatRowLabel rt (rowLabelTemplate st) sid #
         map (\<lambda>k. textOf rt (valueText rt) (getProp metricsOf k)) metricCols @
         (if mergeCovariates st then
            (let rec = (case find (\<lambda>r. rowId rt (idColumn st) r = sid) pRows of
                          Some r \<Rightarrow> r
                        | None \<Rightarrow> [])
             in map (\<lambda>c. textOf rt (\<lambda>s. s) (getProp rec c)) covariateCols)
          else []))"

definition emptyMatrix :: "string \<Rightarrow> Matrix" where
  "emptyMatrix msg = \<lparr>header = [], rows = [], warnings = [], alert = Some msg\<rparr>"

definition buildMatrix :: "'n Engine \<Rightarrow> AppState \<Rightarrow> Stop + Matrix" where
  "buildMatrix rt st =
     (case participantsParsed st of
        None \<Rightarrow>
          Inr (emptyMatrix
            ''Please provide participants.tsv/covariates.csv and choose the ID column.'')
      | Some pt \<Rightarrow>
          if idColumn st = [] then
            Inr (emptyMatrix
              ''Please provide participants.tsv/covariates.csv and choose the ID column.'')
          else
            (let pRows = data pt;
                 subjectsOrder = subjectsOrderOf rt (idColumn st) pRows
             in if subjectsOrder = [] then
                  Inr (emptyMatrix ''No IDs found in the selected column.'')
                else
                  (case collect rt (subjectFiles st) subjectsOrder
                          \<lparr>warningsLocal = [], parsedById = [], canonicalOrder = None\<rparr> of
                     Inl e \<Rightarrow> Inl e
                   | Inr c \<Rightarrow>
                       (let seed = (case canonicalOrder c of Some co \<Rightarrow> co | None \<Rightarrow> [])
                        in case unify (parsedById c) subjectsOrder (seed, set seed) of
                             Inl e \<Rightarrow> Inl e
                           | Inr (metricCols, seen) \<Rightarrow>
                               (let covariateCols =
                                      filter (\<lambda>c. c \<noteq> idColumn st)
                                        (case metaFields pt of Some fs \<Rightarrow> fs | None \<Rightarrow> []);
                                    header =
                                      ''subject'' # metricCols @
                                      (if mergeCovariates st then covariateCols else []);
                                    outRows =
                                      map (buildRow rt st pRows (parsedById c) metricCols
                                             covariateCols) subjectsOrder
                                in Inr \<lparr>header = header, rows = outRows,
                                        warnings = warningsLocal c, alert = None\<rparr>)))))"

section \<open>An engine for examples\<close>

text \<open>
  An instance of the engine for evaluating the model on examples. Its \<open>Number\<close> follows
  the engine on a string of at most fifteen decimal digits, which denotes that integer,
  and on a string without a digit, which denotes no finite number; other strings are not
  used in the examples. Numbers print in decimal, a built-in function prints with its
  name, and the replacement is the literal one (the examples replace by strings without
  a dollar sign).
\<close>

definition digitChar :: "int \<Rightarrow> char" where
  "digitChar d =
     (if d = 0 then CHR ''0'' else if d = 1 then CHR ''1'' else if d = 2 then CHR ''2''
      else if d = 3 then CHR ''3'' else if d = 4 then CHR ''4'' else if d = 5 then CHR ''5''
      else if d = 6 then CHR ''6'' else if d = 7 then CHR ''7'' else if d = 8 then CHR ''8''
      else CHR ''9'')"

function digitsOf :: "int \<Rightarrow> string" where
  "digitsOf n = (if n < 10 then [digitChar n] else digitsOf (n div 10) @ [digitChar (n mod 10)])"
  by pat_completeness auto
termination
  by (relation "measure nat") auto

fun replaceLiteral :: "string \<Rightarrow> string \<Rightarrow> string \<Rightarrow> string" where
  "replaceLiteral p r [] = []"
| "replaceLiteral p r (c # cs) =
     (if p \<noteq> [] \<and> take (length p) (c # cs) = p
      then r @ replaceLiteral p r (drop (length p - 1) cs)
      else c # replaceLiteral p r cs)"

definition exampleEngine :: "int Engine" where
  "exampleEngine =
     \<lparr>Number = (\<lambda>s. if list_all isDigit s \<and> s \<noteq> [] \<and> length s \<le> 15
                     then Finite (decimalValue s)
                     else if s = ''Infinity'' \<or> s = ''+Infinity'' then PosInfinity
                     else if s = ''-Infinity'' then NegInfinity
                     else NaN),
      numberToString = (\<lambda>n. if n < 0 then CHR ''-'' # digitsOf (- n) else digitsOf n),
      functionSource =
        (\<lambda>k. '' '' @ (if k = ''constructor'' then ''Object'' else k) @ ''() { [native code] }''),
      replaceAll = replaceLiteral\<rparr>"

section \<open>Notions of the statements\<close>

text \<open>
  The colon rule in the words of the specification: the key is the trimmed text before
  the first colon, the value the trimmed text after it.
\<close>

definition colonKey :: "string \<Rightarrow> string" where
  "colonKey line = trim (takeWhile (\<lambda>c. c \<noteq> CHR '':'') line)"

definition colonValue :: "string \<Rightarrow> string" where
  "colonValue line = trim (drop 1 (dropWhile (\<lambda>c. c \<noteq> CHR '':'') line))"

text \<open>
  The delimiter rule in the words of the specification: the fields of the first
  delimiter that occurs in the line, tried as tab, comma, white-space runs; the value is
  the last field, the key the fields before it joined by single spaces.
\<close>

definition delimiterFields :: "string \<Rightarrow> string list" where
  "delimiterFields line =
     (if TAB \<in> set line then splitChar TAB line
      else if CHR '','' \<in> set line then splitChar (CHR '','') line
      else splitWhitespace line)"

definition delimiterKey :: "string \<Rightarrow> string" where
  "delimiterKey line = joinSpace (butlast (delimiterFields line))"

definition delimiterValue :: "string \<Rightarrow> string" where
  "delimiterValue line = last (delimiterFields line)"

text \<open>
  The key and the raw value that a trimmed line contributes, if it contributes: by the
  colon rule when its first colon comes after its first character, else by the delimiter
  rule when that gives at least two fields and a key that is not empty. The contributions
  of a text are those of its lines, in order.
\<close>

definition lineEntry :: "string \<Rightarrow> (string \<times> string) option" where
  "lineEntry line =
     (if line = [] \<or> isHeaderMarker line then None
      else if CHR '':'' \<in> set line \<and> hd line \<noteq> CHR '':''
        then Some (colonKey line, colonValue line)
      else if 2 \<le> length (delimiterFields line) \<and> delimiterKey line \<noteq> []
        then Some (delimiterKey line, delimiterValue line)
      else None)"

definition entries :: "string \<Rightarrow> (string \<times> string) list" where
  "entries text = List.map_filter lineEntry (subjectLines text)"

text \<open>What both branches of the loop body do with a key and a raw value.\<close>

definition recordPair :: "'n Engine \<Rightarrow> 'n ParsedSubject \<Rightarrow> string \<Rightarrow> string \<Rightarrow> 'n ParsedSubject" where
  "recordPair rt acc k v =
     acc\<lparr>order := (if k \<noteq> [] \<and> \<not> hasProperty (metrics acc) k then order acc @ [k]
                    else order acc),
         metrics := (if k \<noteq> [] then setPrimitive (metrics acc) k (coerceNumber rt v)
                     else metrics acc)\<rparr>"

text \<open>
  The invariant of the parser: the discovery order lists the own keys of the mapping, in
  the order of their creation, except those that \<^verbatim>\<open>Object.prototype\<close> has too.
\<close>

definition ownKeys :: "'n ParsedSubject \<Rightarrow> string list" where
  "ownKeys p = map fst (metrics p)"

definition wellFormed :: "'n ParsedSubject \<Rightarrow> bool" where
  "wellFormed p =
     (order p = filter (\<lambda>k. k \<notin> set objectPrototypeKeys) (ownKeys p) \<and>
      distinct (ownKeys p) \<and> ''__proto__'' \<notin> set (ownKeys p))"

text \<open>The first occurrences of the elements of a list, in their order.\<close>

primrec firstOccurrences :: "'a list \<Rightarrow> 'a list" where
  "firstOccurrences [] = []"
| "firstOccurrences (x # xs) = x # filter (\<lambda>y. y \<noteq> x) (firstOccurrences xs)"

definition extendCols :: "'a list \<Rightarrow> 'a list \<Rightarrow> 'a list" where
  "extendCols cols ks = cols @ firstOccurrences (filter (\<lambda>k. k \<notin> set cols) ks)"

text \<open>
  The parsed records of the roster's subjects, in roster order; the keys they bring, in
  the order the second loop meets them; and the canonical columns in the words of the
  specification: the discovery order of the first record that has one, then the
  remaining keys by first discovery.
\<close>

definition parsedFor :: "'n Engine \<Rightarrow> SubjectMap \<Rightarrow> string \<Rightarrow> 'n ParsedSubject option" where
  "parsedFor rt pool sid =
     (case resolveFileForId pool sid of
        IsFile f \<Rightarrow> Some (parseSubjectTxt rt (content f))
      | _ \<Rightarrow> None)"

definition parsedInRosterOrder :: "'n Engine \<Rightarrow> SubjectMap \<Rightarrow> string list \<Rightarrow> 'n ParsedSubject list" where
  "parsedInRosterOrder rt pool sids =
     concat (map (\<lambda>sid. case resolveFileForId pool sid of
                           IsFile f \<Rightarrow> [parseSubjectTxt rt (content f)]
                         | _ \<Rightarrow> []) sids)"

definition ownRecords :: "(string \<times> 'v) list \<Rightarrow> string list \<Rightarrow> 'v list" where
  "ownRecords byId sids =
     concat (map (\<lambda>sid. case getProp byId sid of Own p \<Rightarrow> [p] | _ \<Rightarrow> []) sids)"

definition discoveries :: "'n ParsedSubject list \<Rightarrow> string list" where
  "discoveries ps = concat (map (\<lambda>p. order p @ Object_keys (metrics p)) ps)"

definition unifiedColumns :: "'n ParsedSubject \<Rightarrow> 'n ParsedSubject list \<Rightarrow> string list" where
  "unifiedColumns first ps =
     order first @ firstOccurrences (filter (\<lambda>k. k \<notin> set (order first)) (discoveries ps))"

text \<open>The covariate columns, and the warnings for the subjects without a file.\<close>

definition covariateColsOf :: "AppState \<Rightarrow> ParsedTable \<Rightarrow> string list" where
  "covariateColsOf st pt =
     filter (\<lambda>c. c \<noteq> idColumn st) (case metaFields pt of Some fs \<Rightarrow> fs | None \<Rightarrow> [])"

definition missingWarnings :: "SubjectMap \<Rightarrow> string list \<Rightarrow> string list" where
  "missingWarnings pool sids =
     map (\<lambda>sid. ''Missing file for ID: '' @ sid)
       (filter (\<lambda>sid. resolveFileForId pool sid = NotFound) sids)"

section \<open>Example inputs\<close>

text \<open>
  A roster of two subjects and a row without an identifier, with one covariate column;
  one uploaded file, for the first subject.
\<close>

definition fileSub001 :: File where
  "fileSub001 =
     \<lparr>name = ''sub-001.txt'',
      content = ''Measure:volume  sub-001'' @ [LF] @ ''Left-Hippocampus  3500'' @ [CR, LF] @
                ''Right-Hippocampus 3600''\<rparr>"

definition exampleRoster :: ParsedTable where
  "exampleRoster =
     \<lparr>data = [[(''participant_id'', ''sub-001''), (''age'', ''31'')],
              [(''participant_id'', ''  ''), (''age'', ''40'')],
              [(''participant_id'', ''sub-002''), (''age'', ''27'')]],
      metaFields = Some [''participant_id'', ''age'']\<rparr>"

definition exampleState :: AppState where
  "exampleState =
     \<lparr>subjectFiles = [(''sub-001.txt'', fileSub001), (''sub-001'', fileSub001)],
      participantsParsed = Some exampleRoster,
      idColumn = ''participant_id'',
      rowLabelTemplate = ''{id}'',
      mergeCovariates = True\<rparr>"

definition exampleTable :: Matrix where
  "exampleTable =
     \<lparr>header = [''subject'', ''Left-Hippocampus'', ''Right-Hippocampus'', ''age''],
      rows = [[''sub-001'', ''3500'', ''3600'', ''31''], [''sub-002'', [], [], ''27'']],
      warnings = [''Missing file for ID: sub-002''],
      alert = None\<rparr>"

text \<open>Two subjects whose files bring their keys in different orders.\<close>

definition fileA :: File where
  "fileA = \<lparr>name = ''A.txt'', content = ''X: 1'' @ [LF] @ ''Y: 2''\<rparr>"

definition fileB :: File where
  "fileB = \<lparr>name = ''B.txt'', content = ''Y: 3'' @ [LF] @ ''Z: 4''\<rparr>"

definition rosterAB :: ParsedTable where
  "rosterAB = \<lparr>data = [[(''id'', ''A'')], [(''id'', ''B'')]], metaFields = Some [''id'']\<rparr>"

definition stateAB :: AppState where
  "stateAB =
     \<lparr>subjectFiles = [(''A.txt'', fileA), (''A'', fileA), (''B.txt'', fileB), (''B'', fileB)],
      participantsParsed = Some rosterAB,
      idColumn = ''id'',
      rowLabelTemplate = ''{id}'',
      mergeCovariates = False\<rparr>"

definition parsedA :: "int ParsedSubject" where
  "parsedA = \<lparr>metrics = [(''X'', Num 1), (''Y'', Num 2)], order = [''X'', ''Y'']\<rparr>"

definition parsedB :: "int ParsedSubject" where
  "parsedB = \<lparr>metrics = [(''Y'', Num 3), (''Z'', Num 4)], order = [''Y'', ''Z'']\<rparr>"

definition tableAB :: Matrix where
  "tableAB =
     \<lparr>header = [''subject'', ''X'', ''Y'', ''Z''],
      rows = [[''A'', ''1'', ''2'', []], [''B'', [], ''3'', ''4'']],
      warnings = [],
      alert = None\<rparr>"

text \<open>An uploaded file that no roster identifier names.\<close>

definition fileExtra :: File where
  "fileExtra = \<lparr>name = ''sub-999.txt'', content = ''Left-Hippocampus  3400''\<rparr>"

definition stateExtraFile :: AppState where
  "stateExtraFile =
     \<lparr>subjectFiles = [(''sub-001.txt'', fileSub001), (''sub-001'', fileSub001),
                      (''sub-999.txt'', fileExtra), (''sub-999'', fileExtra)],
      participantsParsed =
        Some \<lparr>data = [[(''participant_id'', ''sub-001'')]],
              metaFields = Some [''participant_id'']\<rparr>,
      idColumn = ''participant_id'',
      rowLabelTemplate = ''{id}'',
      mergeCovariates = False\<rparr>"

text \<open>
  A file whose only key is a name of \<^verbatim>\<open>Object.prototype\<close>, a subject without a file
  beside it, and a roster whose only identifier is such a name, with no file at all.
\<close>

definition fileConstructor :: File where
  "fileConstructor = \<lparr>name = ''a.txt'', content = ''constructor: 1''\<rparr>"

definition stateConstructor :: AppState where
  "stateConstructor =
     \<lparr>subjectFiles = [(''a.txt'', fileConstructor), (''a'', fileConstructor)],
      participantsParsed =
        Some \<lparr>data = [[(''id'', ''a'')], [(''id'', ''b'')]], metaFields = Some [''id'']\<rparr>,
      idColumn = ''id'',
      rowLabelTemplate = ''{id}'',
      mergeCovariates = False\<rparr>"

definition stateValueOf :: AppState where
  "stateValueOf =
     \<lparr>subjectFiles = [],
      participantsParsed = Some \<lparr>data = [[(''id'', ''valueOf'')]], metaFields = Some [''id'']\<rparr>,
      idColumn = ''id'',
      rowLabelTemplate = ''{id}'',
      mergeCovariates = False\<rparr>"

section \<open>Strings: basic facts\<close>

lemma isSpace_simps:
  "isSpace c =
     (c = CHR 0x09 \<or> c = CHR 0x0A \<or> c = CHR 0x0B \<or> c = CHR 0x0C \<or> c = CHR 0x0D \<or>
      c = CHR 0x20 \<or> c = CHR 0xA0)"
  by (simp add: isSpace_def whiteSpace_def)

lemma dropWhile_id: "xs = [] \<or> \<not> P (hd xs) \<Longrightarrow> dropWhile P xs = xs"
  by (cases xs) auto

lemma last_dropWhile: "dropWhile P xs \<noteq> [] \<Longrightarrow> last (dropWhile P xs) = last xs"
  by (induction xs) (auto split: if_splits)

lemma trim_trim: "trim (trim s) = trim s"
proof -
  define t where "t = dropWhile isSpace s"
  define u where "u = dropWhile isSpace (rev t)"
  have t: "t = [] \<or> \<not> isSpace (hd t)"
    unfolding t_def by (metis hd_dropWhile)
  have "u = [] \<or> \<not> isSpace (last u)"
  proof (cases "u = []")
    case False
    then have "last u = last (rev t)" unfolding u_def by (rule last_dropWhile)
    moreover from False have "t \<noteq> []" unfolding u_def by auto
    ultimately show ?thesis using t by (simp add: last_rev)
  qed simp
  then have "dropWhile isSpace (rev u) = rev u"
    by (intro dropWhile_id) (auto simp: hd_rev)
  moreover have "dropWhile isSpace u = u"
    unfolding u_def by simp
  ultimately show ?thesis
    by (simp add: trim_def t_def [symmetric] u_def [symmetric])
qed

lemma length_trim_le: "length (trim s) \<le> length (dropWhile isSpace s)"
  unfolding trim_def
  using length_dropWhile_le [of isSpace "rev (dropWhile isSpace s)"] by simp

lemma trimmed_hd: "trim s = s \<Longrightarrow> s \<noteq> [] \<Longrightarrow> \<not> isSpace (hd s)"
proof
  assume "trim s = s" "s \<noteq> []" "isSpace (hd s)"
  then obtain c cs where s: "s = c # cs" "isSpace c" by (cases s) auto
  have "length (dropWhile isSpace s) \<le> length cs"
    using s by (simp add: length_dropWhile_le)
  with length_trim_le [of s] \<open>trim s = s\<close> s show False by simp
qed

lemma trim_nonempty: "s \<noteq> [] \<Longrightarrow> \<not> isSpace (hd s) \<Longrightarrow> trim s \<noteq> []"
proof -
  assume a: "s \<noteq> []" "\<not> isSpace (hd s)"
  then have d: "dropWhile isSpace s = s" by (intro dropWhile_id) simp
  have "\<exists>x\<in>set (rev s). \<not> isSpace x" using a by (metis hd_in_set set_rev)
  then have "dropWhile isSpace (rev s) \<noteq> []" by (simp add: dropWhile_eq_Nil_conv)
  then show ?thesis by (simp add: trim_def d)
qed

lemma indexOf_pos: "(indexOf s c > 0) = (c \<in> set s \<and> hd s \<noteq> c)"
  by (cases s) (auto simp: indexOf_def)

lemma indexOf_take:
  "c \<in> set s \<Longrightarrow> take (nat (indexOf s c)) s = takeWhile (\<lambda>x. x \<noteq> c) s"
  using takeWhile_eq_take [of "\<lambda>x. x \<noteq> c" s] by (simp add: indexOf_def)

lemma indexOf_drop:
  "c \<in> set s \<Longrightarrow> drop (nat (indexOf s c + 1)) s = drop 1 (dropWhile (\<lambda>x. x \<noteq> c) s)"
proof -
  assume "c \<in> set s"
  then have "nat (indexOf s c + 1) = 1 + length (takeWhile (\<lambda>x. x \<noteq> c) s)"
    by (simp add: indexOf_def)
  moreover have "drop 1 (dropWhile (\<lambda>x. x \<noteq> c) s) =
      drop (1 + length (takeWhile (\<lambda>x. x \<noteq> c) s)) s"
    using dropWhile_eq_drop [of "\<lambda>x. x \<noteq> c" s] by (simp only: drop_drop)
  ultimately show ?thesis by simp
qed

lemma length_splitFields: "length (splitFields d cur s) = Suc (count_list s d)"
  by (induction s arbitrary: cur) auto

lemma splitChar_many: "(Suc 0 < length (splitChar d s)) = (d \<in> set s)"
  using count_list_0_iff [of s d] by (auto simp: splitChar_def length_splitFields)

section \<open>Value coercion\<close>

text \<open>
  C6: \<open>coerceNumber\<close> looks at its argument through \<open>trim\<close> only. When the trimmed
  string is empty the result is the empty string; when \<open>Number\<close> of the trimmed string
  is a finite number the result is that number; in every other case the result is the
  trimmed string.
\<close>

theorem coerceNumber_trims_then_parses:
  "coerceNumber rt v = coerceNumber rt (trim v) \<and>
   (trim v = [] \<longrightarrow> coerceNumber rt v = Str []) \<and>
   (trim v \<noteq> [] \<and> Number rt (trim v) = Finite n \<longrightarrow> coerceNumber rt v = Num n) \<and>
   (trim v \<noteq> [] \<and> (\<forall>m. Number rt (trim v) \<noteq> Finite m) \<longrightarrow>
      coerceNumber rt v = Str (trim v))"
  by (cases "Number rt (trim v)") (simp_all add: coerceNumber_def trim_trim)

theorem coerceNumber_trims_then_parses_witness:
  "coerceNumber exampleEngine '' 3500 '' = Num 3500 \<and>
   coerceNumber exampleEngine '' n/a '' = Str ''n/a'' \<and>
   coerceNumber exampleEngine [CHR '' '', TAB] = Str []"
proof -
  have t1: "trim '' 3500 '' = ''3500''" and t2: "trim '' n/a '' = ''n/a''"
    and t3: "trim [CHR '' '', TAB] = []"
    by (simp_all add: trim_def isSpace_simps)
  have n1: "trim '' 3500 '' \<noteq> [] \<and> Number exampleEngine (trim '' 3500 '') = Finite 3500"
    by (simp add: t1 exampleEngine_def isDigit_def decimalValue_def digitValue_def)
  have n2: "trim '' n/a '' \<noteq> [] \<and> (\<forall>m. Number exampleEngine (trim '' n/a '') \<noteq> Finite m)"
    by (simp add: t2 exampleEngine_def isDigit_def)
  have "coerceNumber exampleEngine '' 3500 '' = Num 3500"
    using coerceNumber_trims_then_parses [of exampleEngine "'' 3500 ''" 3500] n1 by blast
  moreover have "coerceNumber exampleEngine '' n/a '' = Str (trim '' n/a '')"
    using coerceNumber_trims_then_parses [of exampleEngine "'' n/a ''"] n2 by blast
  moreover have "coerceNumber exampleEngine [CHR '' '', TAB] = Str []"
    using coerceNumber_trims_then_parses [of exampleEngine "[CHR '' '', TAB]"] t3 by blast
  ultimately show ?thesis by (simp only: t2 simp_thms)
qed

section \<open>First occurrences\<close>

lemma filter_firstOccurrences: "filter P (firstOccurrences xs) = firstOccurrences (filter P xs)"
proof (induction xs)
  case (Cons x xs)
  show ?case
  proof (cases "P x")
    case True
    have "filter P (filter (\<lambda>y. y \<noteq> x) (firstOccurrences xs)) =
          filter (\<lambda>y. y \<noteq> x) (filter P (firstOccurrences xs))"
      by (simp add: conj_commute)
    with True Cons show ?thesis by simp
  next
    case False
    then have "filter P (filter (\<lambda>y. y \<noteq> x) (firstOccurrences xs)) =
        filter P (firstOccurrences xs)"
      by (auto intro: filter_cong)
    with False Cons show ?thesis by simp
  qed
qed simp

lemma set_firstOccurrences [simp]: "set (firstOccurrences xs) = set xs"
  by (induction xs) auto

lemma distinct_firstOccurrences [simp]: "distinct (firstOccurrences xs)"
  by (induction xs) auto

lemma extendCols_Nil [simp]: "extendCols cols [] = cols"
  by (simp add: extendCols_def)

lemma extendCols_Cons:
  "extendCols cols (k # ks) =
     (if k \<in> set cols then extendCols cols ks else extendCols (cols @ [k]) ks)"
proof (cases "k \<in> set cols")
  case False
  have "filter (\<lambda>y. y \<noteq> k) (firstOccurrences (filter (\<lambda>k. k \<notin> set cols) ks)) =
        firstOccurrences (filter (\<lambda>x. x \<notin> set (cols @ [k])) ks)"
    by (simp add: filter_firstOccurrences conj_commute)
  with False show ?thesis by (simp add: extendCols_def)
qed (simp add: extendCols_def)

lemma extendCols_append: "extendCols cols (a @ b) = extendCols (extendCols cols a) b"
  by (induction a arbitrary: cols) (simp_all add: extendCols_Cons)

section \<open>The parser: one line\<close>

lemma proto_in_keys: "''__proto__'' \<in> set objectPrototypeKeys"
  by (simp add: objectPrototypeKeys_def)

lemma map_of_setPrimitive:
  "k \<noteq> ''__proto__'' \<Longrightarrow> map_of (setPrimitive obj k v) = (map_of obj)(k \<mapsto> v)"
  by (simp add: setPrimitive_def AList.update_conv')

lemma keys_setPrimitive:
  "map fst (setPrimitive obj k v) =
     (if k \<in> set (map fst obj) \<or> k = ''__proto__'' then map fst obj else map fst obj @ [k])"
  by (auto simp: setPrimitive_def AList.update_keys)

lemma hasProperty_plain:
  "k \<notin> set objectPrototypeKeys \<Longrightarrow> hasProperty obj k = (k \<in> set (map fst obj))"
  by (simp add: hasProperty_def)

lemma recordPair_empty: "recordPair rt acc [] v = acc"
  by (simp add: recordPair_def)

lemma recordPair_plain:
  assumes "k \<noteq> []" "k \<notin> set objectPrototypeKeys"
  shows "map_of (metrics (recordPair rt acc k v)) = (map_of (metrics acc))(k \<mapsto> coerceNumber rt v)"
    and "order (recordPair rt acc k v) =
           (if k \<in> set (map fst (metrics acc)) then order acc else order acc @ [k])"
proof -
  have "k \<noteq> ''__proto__''" using assms(2) proto_in_keys by auto
  then show "map_of (metrics (recordPair rt acc k v)) =
      (map_of (metrics acc))(k \<mapsto> coerceNumber rt v)"
    using assms by (simp add: recordPair_def map_of_setPrimitive)
  show "order (recordPair rt acc k v) =
           (if k \<in> set (map fst (metrics acc)) then order acc else order acc @ [k])"
    using assms by (simp add: recordPair_def hasProperty_plain)
qed

lemma colonKey_nonempty:
  assumes "trim line = line" "line \<noteq> []" "hd line \<noteq> CHR '':''"
  shows "colonKey line \<noteq> []"
proof -
  obtain c cs where l: "line = c # cs" using assms(2) by (cases line) auto
  have "\<not> isSpace c" using trimmed_hd [OF assms(1,2)] l by simp
  then show ?thesis
    unfolding colonKey_def using assms(3) l by (intro trim_nonempty) auto
qed

lemma parseLine_colon:
  assumes "line \<noteq> []" "\<not> isHeaderMarker line" "CHR '':'' \<in> set line" "hd line \<noteq> CHR '':''"
    and "trim line = line"
  shows "parseLine rt acc line = recordPair rt acc (colonKey line) (colonValue line)"
  using assms colonKey_nonempty [OF assms(5,1,4)]
  by (simp add: parseLine_def Let_def indexOf_pos indexOf_take indexOf_drop colonKey_def
      colonValue_def recordPair_def)

lemma splitByAny_delimiterFields: "trim line = line \<Longrightarrow> splitByAny line = delimiterFields line"
  by (simp add: splitByAny_def delimiterFields_def Let_def splitChar_many)

lemma parseLine_delimiter:
  assumes "line \<noteq> []" "\<not> isHeaderMarker line"
    and "\<not> (CHR '':'' \<in> set line \<and> hd line \<noteq> CHR '':'')"
    and "trim line = line"
  shows "parseLine rt acc line =
     (if 2 \<le> length (delimiterFields line)
      then recordPair rt acc (delimiterKey line) (delimiterValue line) else acc)"
proof -
  have "\<not> indexOf line (CHR '':'') > 0"
    using assms(3) by (simp only: indexOf_pos) simp
  then show ?thesis
    using assms(1,2)
    by (simp add: parseLine_def Let_def splitByAny_delimiterFields [OF assms(4)] recordPair_def
        delimiterKey_def delimiterValue_def)
qed

text \<open>
  C4, as amended: a line that is not blank, is trimmed, is not the header marker and has
  its first colon after its first character is split at that colon. The trimmed left side
  is the key and the coerced, trimmed right side the value: the mapping takes the value
  under the key, and the key joins the discovery order when the mapping did not have it.
  The statement leaves out the keys that are names of \<^verbatim>\<open>Object.prototype\<close>.
\<close>

theorem colon_line_recorded:
  assumes "line \<noteq> []" "trim line = line" "\<not> isHeaderMarker line"
    and "CHR '':'' \<in> set line" "hd line \<noteq> CHR '':''"
    and "colonKey line \<notin> set objectPrototypeKeys"
  shows "map_of (metrics (parseLine rt acc line)) =
           (map_of (metrics acc))(colonKey line \<mapsto> coerceNumber rt (colonValue line)) \<and>
         order (parseLine rt acc line) =
           (if colonKey line \<in> set (map fst (metrics acc)) then order acc
            else order acc @ [colonKey line])"
  using assms colonKey_nonempty [OF assms(2,1,5)]
  by (simp add: parseLine_colon recordPair_plain)

theorem colon_line_recorded_witness:
  "map_of (metrics (parseLine exampleEngine \<lparr>metrics = [(''Right'', Num 7)], order = [''Right'']\<rparr>
      ''Left : 12'')) = [''Right'' \<mapsto> Num 7, ''Left'' \<mapsto> Num 12] \<and>
   order (parseLine exampleEngine \<lparr>metrics = [(''Right'', Num 7)], order = [''Right'']\<rparr>
      ''Left : 12'') = [''Right'', ''Left'']"
proof -
  have h: "''Left : 12'' \<noteq> []" "trim ''Left : 12'' = ''Left : 12''"
    "\<not> isHeaderMarker ''Left : 12''" "CHR '':'' \<in> set ''Left : 12''"
    "hd ''Left : 12'' \<noteq> CHR '':''" "colonKey ''Left : 12'' \<notin> set objectPrototypeKeys"
    by code_simp+
  have k: "colonKey ''Left : 12'' = ''Left''"
    and v: "coerceNumber exampleEngine (colonValue ''Left : 12'') = Num 12"
    by code_simp+
  show ?thesis
    using colon_line_recorded [OF h, of exampleEngine
        "\<lparr>metrics = [(''Right'', Num 7)], order = [''Right'']\<rparr>"]
    by (simp add: k v)
qed

text \<open>
  C4 as stated fails on a line that starts with its colon: the line \<^verbatim>\<open>:a b\<close> goes to the
  delimiter rule, which records the key \<^verbatim>\<open>:a\<close> with the value \<^verbatim>\<open>b\<close>, where the colon
  rule has the empty key and the value \<^verbatim>\<open>a b\<close>.
\<close>

theorem colon_first_counterexample:
  "'':a b'' \<noteq> [] \<and> trim '':a b'' = '':a b'' \<and> \<not> isHeaderMarker '':a b'' \<and>
   CHR '':'' \<in> set '':a b'' \<and>
   colonKey '':a b'' = [] \<and> colonValue '':a b'' = ''a b'' \<and>
   parseSubjectTxt exampleEngine '':a b'' =
     \<lparr>metrics = [('':a'', Str ''b'')], order = ['':a'']\<rparr>"
  by code_simp

text \<open>
  C3, as amended: a line that is not blank, is trimmed, is not the header marker and is
  not taken by the colon rule is split at its tabs if it has one, else at its commas if it
  has one, else at its white-space runs. With at least two fields and a key (the fields
  before the last, joined by single spaces) that is not empty, the mapping takes the
  coerced last field under the key, and the key joins the discovery order when the mapping
  did not have it; with fewer than two fields, or an empty key, the line changes nothing.
  The statement leaves out the keys that are names of \<^verbatim>\<open>Object.prototype\<close>.
\<close>

theorem delimiter_line_recorded:
  assumes "line \<noteq> []" "trim line = line" "\<not> isHeaderMarker line"
    and "\<not> (CHR '':'' \<in> set line \<and> hd line \<noteq> CHR '':'')"
  shows "splitByAny line = delimiterFields line \<and>
    (1 < length (splitChar TAB line)) = (TAB \<in> set line) \<and>
    (1 < length (splitChar (CHR '','') line)) = (CHR '','' \<in> set line) \<and>
    (2 \<le> length (delimiterFields line) \<and> delimiterKey line \<noteq> [] \<and>
       delimiterKey line \<notin> set objectPrototypeKeys \<longrightarrow>
     map_of (metrics (parseLine rt acc line)) =
       (map_of (metrics acc))(delimiterKey line \<mapsto> coerceNumber rt (delimiterValue line)) \<and>
     order (parseLine rt acc line) =
       (if delimiterKey line \<in> set (map fst (metrics acc)) then order acc
        else order acc @ [delimiterKey line])) \<and>
    (length (delimiterFields line) < 2 \<or> delimiterKey line = [] \<longrightarrow>
     parseLine rt acc line = acc)"
  using assms splitChar_many [of TAB line] splitChar_many [of "CHR '',''" line]
  by (auto simp: parseLine_delimiter splitByAny_delimiterFields recordPair_plain recordPair_empty)

theorem delimiter_line_recorded_witness:
  "splitByAny ''Left  Hippocampus 3500'' = [''Left'', ''Hippocampus'', ''3500''] \<and>
   map_of (metrics (parseLine exampleEngine \<lparr>metrics = [], order = []\<rparr>
      ''Left  Hippocampus 3500'')) = [''Left Hippocampus'' \<mapsto> Num 3500] \<and>
   order (parseLine exampleEngine \<lparr>metrics = [], order = []\<rparr> ''Left  Hippocampus 3500'') =
     [''Left Hippocampus''] \<and>
   parseLine exampleEngine \<lparr>metrics = [], order = []\<rparr> ''Hippocampus'' =
     \<lparr>metrics = [], order = []\<rparr>"
proof -
  have h: "''Left  Hippocampus 3500'' \<noteq> []"
    "trim ''Left  Hippocampus 3500'' = ''Left  Hippocampus 3500''"
    "\<not> isHeaderMarker ''Left  Hippocampus 3500''"
    "\<not> (CHR '':'' \<in> set ''Left  Hippocampus 3500'' \<and> hd ''Left  Hippocampus 3500'' \<noteq> CHR '':'')"
    by code_simp+
  have f: "delimiterFields ''Left  Hippocampus 3500'' = [''Left'', ''Hippocampus'', ''3500'']"
    and k: "delimiterKey ''Left  Hippocampus 3500'' = ''Left Hippocampus''"
    and p: "''Left Hippocampus'' \<notin> set objectPrototypeKeys"
    and v: "coerceNumber exampleEngine (delimiterValue ''Left  Hippocampus 3500'') = Num 3500"
    by code_simp+
  have g: "''Hippocampus'' \<noteq> []" "trim ''Hippocampus'' = ''Hippocampus''"
    "\<not> isHeaderMarker ''Hippocampus''"
    "\<not> (CHR '':'' \<in> set ''Hippocampus'' \<and> hd ''Hippocampus'' \<noteq> CHR '':'')"
    by code_simp+
  have one: "delimiterFields ''Hippocampus'' = [''Hippocampus'']"
    by code_simp
  have "parseLine exampleEngine \<lparr>metrics = [], order = []\<rparr> ''Hippocampus'' =
     \<lparr>metrics = [], order = []\<rparr>"
    using delimiter_line_recorded [OF g, of exampleEngine "\<lparr>metrics = [], order = []\<rparr>"]
    by (simp add: one)
  then show ?thesis
    using delimiter_line_recorded [OF h, of exampleEngine "\<lparr>metrics = [], order = []\<rparr>"]
    by (simp add: f k p v)
qed

text \<open>
  C3 as stated fails on a line whose key is empty: the line \<^verbatim>\<open>,5\<close> has no tab and
  splits at its comma into two fields, the empty string and \<^verbatim>\<open>5\<close>, and records
  nothing.
\<close>

theorem empty_key_counterexample:
  "'',5'' \<noteq> [] \<and> trim '',5'' = '',5'' \<and> \<not> isHeaderMarker '',5'' \<and>
   CHR '':'' \<notin> set '',5'' \<and>
   splitByAny '',5'' = [[], ''5''] \<and> length (splitByAny '',5'') = 2 \<and>
   parseSubjectTxt exampleEngine '',5'' = \<lparr>metrics = [], order = []\<rparr>"
  by code_simp

section \<open>The parser: a whole text\<close>

lemma parseLine_cases:
  "parseLine rt acc line = acc \<or> (\<exists>k v. parseLine rt acc line = recordPair rt acc k v)"
proof (cases "line = [] \<or> isHeaderMarker line")
  case True
  then show ?thesis by (auto simp: parseLine_def)
next
  case False
  show ?thesis
  proof (cases "indexOf line (CHR '':'') > 0")
    case True
    with False have "parseLine rt acc line =
        recordPair rt acc (trim (take (nat (indexOf line (CHR '':''))) line))
          (trim (drop (nat (indexOf line (CHR '':'') + 1)) line))"
      by (simp add: parseLine_def recordPair_def Let_def)
    then show ?thesis by blast
  next
    case noColon: False
    show ?thesis
    proof (cases "2 \<le> length (splitByAny line)")
      case True
      with False noColon have "parseLine rt acc line =
          recordPair rt acc (joinSpace (butlast (splitByAny line))) (last (splitByAny line))"
        by (simp add: parseLine_def recordPair_def Let_def)
      then show ?thesis by blast
    next
      case few: False
      with False noColon show ?thesis by (simp add: parseLine_def Let_def)
    qed
  qed
qed

lemma wellFormed_recordPair:
  assumes "wellFormed acc"
  shows "wellFormed (recordPair rt acc k v)"
proof (cases "k = []")
  case True
  then show ?thesis using assms by (simp add: recordPair_empty)
next
  case False
  show ?thesis
  proof (cases "k \<in> set (ownKeys acc) \<or> k = ''__proto__''")
    case True
    then have "ownKeys (recordPair rt acc k v) = ownKeys acc"
      using False by (auto simp: recordPair_def ownKeys_def keys_setPrimitive)
    moreover have "order (recordPair rt acc k v) = order acc"
      using False True proto_in_keys by (auto simp: recordPair_def hasProperty_def ownKeys_def)
    ultimately show ?thesis using assms by (simp add: wellFormed_def)
  next
    case new: False
    then have "ownKeys (recordPair rt acc k v) = ownKeys acc @ [k]"
      using False by (auto simp: recordPair_def ownKeys_def keys_setPrimitive)
    moreover have "order (recordPair rt acc k v) =
        (if k \<in> set objectPrototypeKeys then order acc else order acc @ [k])"
      using False new by (auto simp: recordPair_def hasProperty_def ownKeys_def)
    ultimately show ?thesis using assms new by (auto simp: wellFormed_def)
  qed
qed

lemma wellFormed_parseLine: "wellFormed acc \<Longrightarrow> wellFormed (parseLine rt acc line)"
  using parseLine_cases [of rt acc line] by (auto simp: wellFormed_recordPair)

lemma wellFormed_foldl: "wellFormed acc \<Longrightarrow> wellFormed (foldl (parseLine rt) acc ls)"
  by (induction ls arbitrary: acc) (simp_all add: wellFormed_parseLine)

text \<open>
  Whatever the text, the discovery order of the parsed record lists, once each and in the
  order of their creation, the own keys of its mapping that are not names of
  \<^verbatim>\<open>Object.prototype\<close>.
\<close>

lemma wellFormed_parseSubjectTxt: "wellFormed (parseSubjectTxt rt text)"
  unfolding parseSubjectTxt_def by (rule wellFormed_foldl) (simp add: wellFormed_def ownKeys_def)

lemma parseLine_entry:
  assumes "trim line = line"
  shows "parseLine rt acc line =
     (case lineEntry line of None \<Rightarrow> acc | Some (k, v) \<Rightarrow> recordPair rt acc k v)"
proof (cases "line = [] \<or> isHeaderMarker line")
  case True
  then show ?thesis by (auto simp: lineEntry_def parseLine_def)
next
  case False
  show ?thesis
  proof (cases "CHR '':'' \<in> set line \<and> hd line \<noteq> CHR '':''")
    case True
    with False assms show ?thesis by (simp add: lineEntry_def parseLine_colon)
  next
    case noColon: False
    with False assms show ?thesis
      by (auto simp: lineEntry_def parseLine_delimiter recordPair_empty)
  qed
qed

lemma lineEntry_key: "lineEntry line = Some (k, v) \<Longrightarrow> trim line = line \<Longrightarrow> k \<noteq> []"
  by (auto simp: lineEntry_def colonKey_nonempty split: if_splits)

lemma subjectLines_trimmed: "l \<in> set (subjectLines text) \<Longrightarrow> trim l = l"
  by (auto simp: subjectLines_def trim_trim)

lemma foldl_parseLine_entries:
  "\<forall>l\<in>set ls. trim l = l \<Longrightarrow>
     foldl (parseLine rt) acc ls =
       foldl (\<lambda>a (k, v). recordPair rt a k v) acc (List.map_filter lineEntry ls)"
proof (induction ls arbitrary: acc)
  case (Cons l ls)
  then show ?case
    by (cases "lineEntry l") (auto simp: parseLine_entry List.map_filter_simps)
qed (simp add: List.map_filter_simps)

lemma parseSubjectTxt_entries:
  "parseSubjectTxt rt text =
     foldl (\<lambda>a (k, v). recordPair rt a k v) \<lparr>metrics = [], order = []\<rparr> (entries text)"
  unfolding parseSubjectTxt_def entries_def
  by (rule foldl_parseLine_entries) (simp add: subjectLines_trimmed)

lemma entries_keys: "(k, v) \<in> set (entries text) \<Longrightarrow> k \<noteq> []"
  using lineEntry_key subjectLines_trimmed
  by (fastforce simp: entries_def List.map_filter_def)

lemma wellFormed_foldl_recordPair:
  "wellFormed acc \<Longrightarrow> wellFormed (foldl (\<lambda>a (k, v). recordPair rt a k v) acc es)"
  by (induction es arbitrary: acc) (auto simp: wellFormed_recordPair)

lemma wellFormed_plain_own:
  "wellFormed acc \<Longrightarrow> k \<notin> set objectPrototypeKeys \<Longrightarrow>
     (k \<in> set (map fst (metrics acc))) = (k \<in> set (order acc))"
  by (auto simp: wellFormed_def ownKeys_def)

lemma order_foldl_recordPair:
  "wellFormed acc \<Longrightarrow> \<forall>(k, v)\<in>set es. k \<noteq> [] \<Longrightarrow>
     order (foldl (\<lambda>a (k, v). recordPair rt a k v) acc es) =
       extendCols (order acc) (filter (\<lambda>k. k \<notin> set objectPrototypeKeys) (map fst es))"
proof (induction es arbitrary: acc)
  case Nil
  then show ?case by simp
next
  case (Cons e es)
  obtain k v where e: "e = (k, v)" by (cases e)
  have k: "k \<noteq> []" using Cons.prems(2) e by simp
  have wf: "wellFormed (recordPair rt acc k v)"
    using Cons.prems(1) by (rule wellFormed_recordPair)
  have step: "order (recordPair rt acc k v) =
      (if k \<in> set objectPrototypeKeys \<or> k \<in> set (order acc) then order acc else order acc @ [k])"
    using k wellFormed_plain_own [OF Cons.prems(1), of k]
    by (auto simp: recordPair_def hasProperty_def)
  have "order (foldl (\<lambda>a (k, v). recordPair rt a k v) (recordPair rt acc k v) es) =
       extendCols (order (recordPair rt acc k v))
         (filter (\<lambda>k. k \<notin> set objectPrototypeKeys) (map fst es))"
    using Cons.IH [OF wf] Cons.prems(2) by simp
  then show ?case
    using e step by (simp add: extendCols_Cons)
qed

lemma value_foldl_recordPair:
  "k \<notin> set objectPrototypeKeys \<Longrightarrow> \<forall>(k, v)\<in>set es. k \<noteq> [] \<Longrightarrow>
     map_of (metrics (foldl (\<lambda>a (k, v). recordPair rt a k v) acc es)) k =
       (case map_of (rev es) k of
          Some v \<Rightarrow> Some (coerceNumber rt v)
        | None \<Rightarrow> map_of (metrics acc) k)"
proof (induction es arbitrary: acc)
  case Nil
  then show ?case by simp
next
  case (Cons e es)
  obtain k' v' where e: "e = (k', v')" by (cases e)
  have k': "k' \<noteq> []" using Cons.prems(2) e by simp
  have step: "map_of (metrics (recordPair rt acc k' v')) k =
      (if k' = k then Some (coerceNumber rt v') else map_of (metrics acc) k)"
  proof (cases "k' = ''__proto__''")
    case True
    then have "k' \<noteq> k" using Cons.prems(1) proto_in_keys by auto
    moreover have "map_of (setPrimitive (metrics acc) k' (coerceNumber rt v')) k =
        map_of (metrics acc) k"
      using \<open>k' \<noteq> k\<close> by (auto simp: setPrimitive_def AList.update_conv')
    ultimately show ?thesis using k' by (simp add: recordPair_def)
  next
    case False
    then show ?thesis using k' by (simp add: recordPair_def map_of_setPrimitive)
  qed
  have "map_of (metrics (foldl (\<lambda>a (k, v). recordPair rt a k v) (recordPair rt acc k' v') es)) k =
       (case map_of (rev es) k of
          Some v \<Rightarrow> Some (coerceNumber rt v)
        | None \<Rightarrow> map_of (metrics (recordPair rt acc k' v')) k)"
    using Cons.IH [OF Cons.prems(1)] Cons.prems(2) by simp
  then show ?case
    using e step by (auto simp: map_of_append split: option.splits)
qed

text \<open>
  Whatever the text, the discovery order lists the keys of the contributions that are
  not names of \<^verbatim>\<open>Object.prototype\<close>, once each, in the order of their first
  contribution; and under such a key the mapping holds the coerced value of the last
  contribution of the key.
\<close>

lemma parseSubjectTxt_plain_keys:
  "order (parseSubjectTxt rt text) =
     firstOccurrences (filter (\<lambda>k. k \<notin> set objectPrototypeKeys) (map fst (entries text))) \<and>
   (k \<notin> set objectPrototypeKeys \<longrightarrow>
      map_of (metrics (parseSubjectTxt rt text)) k =
        map_option (coerceNumber rt) (map_of (rev (entries text)) k))"
proof -
  have ne: "\<forall>(k, v)\<in>set (entries text). k \<noteq> []"
    using entries_keys by blast
  have wf: "wellFormed \<lparr>metrics = [], order = []\<rparr>"
    by (simp add: wellFormed_def ownKeys_def)
  show ?thesis
    using order_foldl_recordPair [OF wf ne, of rt] value_foldl_recordPair [OF _ ne, of k rt]
    by (auto simp: parseSubjectTxt_entries extendCols_def split: option.splits)
qed

text \<open>
  C2 fails on a key that \<^verbatim>\<open>Object.prototype\<close> has: for the text
  \<^verbatim>\<open>constructor: 1\<close> the test \<^verbatim>\<open>k in metrics\<close> holds before the key is ever
  recorded, so the mapping takes the key and the discovery order stays empty.
\<close>

theorem inherited_key_not_in_order:
  "order (parseSubjectTxt rt ''constructor: 1'') = [] \<and>
   metrics (parseSubjectTxt rt ''constructor: 1'') = [(''constructor'', coerceNumber rt ''1'')]"
  by (simp add: parseSubjectTxt_def subjectLines_def splitLines_def parseLine_def
      isHeaderMarker_def upperAscii_def indexOf_def trim_def isSpace_simps hasProperty_def
      setPrimitive_def objectPrototypeKeys_def objectPrototypeFunctions_def Let_def)

section \<open>The second loop\<close>

lemma appendUnseen_extendCols:
  "appendUnseen ks (cols, set cols) = (extendCols cols ks, set (extendCols cols ks))"
proof (induction ks arbitrary: cols)
  case (Cons k ks)
  have "appendUnseen ks (cols @ [k], insert k (set cols)) =
        (extendCols (cols @ [k]) ks, set (extendCols (cols @ [k]) ks))"
    using Cons [of "cols @ [k]"] by simp
  with Cons [of cols] show ?case by (simp add: extendCols_Cons)
qed simp

lemma unify_extendCols:
  "unify byId sids (cols, set cols) = Inr (cols', seen') \<Longrightarrow>
     cols' = extendCols cols (discoveries (ownRecords byId sids)) \<and> seen' = set cols'"
proof (induction sids arbitrary: cols)
  case Nil
  then show ?case by (auto simp: ownRecords_def discoveries_def)
next
  case (Cons sid sids)
  show ?case
  proof (cases "getProp byId sid")
    case (Own p)
    let ?c = "extendCols cols (order p @ Object_keys (metrics p))"
    have "unify byId sids (?c, set ?c) = Inr (cols', seen')"
      using Cons.prems Own by (simp add: appendUnseen_extendCols extendCols_append)
    from Cons.IH [OF this] show ?thesis
      using Own by (simp add: ownRecords_def discoveries_def extendCols_append)
  next
    case Undefined
    with Cons show ?thesis by (simp add: ownRecords_def discoveries_def)
  qed (use Cons.prems in simp_all)
qed

section \<open>The first loop\<close>

lemma getProp_Undefined:
  "getProp obj k = Undefined \<Longrightarrow> k \<notin> set objectPrototypeKeys \<and> map_of obj k = None"
  by (auto simp: getProp_def objectPrototypeKeys_def split: option.splits if_splits)

lemma getProp_plain:
  "k \<notin> set objectPrototypeKeys \<Longrightarrow>
     getProp obj k = (case map_of obj k of Some v \<Rightarrow> Own v | None \<Rightarrow> Undefined)"
  by (auto simp: getProp_def objectPrototypeKeys_def split: option.splits)

lemma getProp_own: "map_of obj k = Some v \<Longrightarrow> getProp obj k = Own v"
  by (simp add: getProp_def)

lemma resolve_NotFound:
  "resolveFileForId pool sid = NotFound \<Longrightarrow> normalize sid \<notin> set objectPrototypeKeys"
  by (auto simp: resolveFileForId_def Let_def dest: getProp_Undefined split: Lookup.splits)

text \<open>
  For an identifier none of whose candidate names is a name of \<^verbatim>\<open>Object.prototype\<close>,
  the resolver returns the file under the first of the three candidates that the pool
  has, and nothing when it has none of them.
\<close>

lemma resolveFileForId_plain:
  assumes "normalize idRaw \<notin> set objectPrototypeKeys"
    and "stripExt (normalize idRaw) \<notin> set objectPrototypeKeys"
    and "stripExt (normalize idRaw) @ ''.txt'' \<notin> set objectPrototypeKeys"
  shows "resolveFileForId pool idRaw =
     (case map_of pool (normalize idRaw) of
        Some f \<Rightarrow> IsFile f
      | None \<Rightarrow>
          (case map_of pool (stripExt (normalize idRaw)) of
             Some f \<Rightarrow> IsFile f
           | None \<Rightarrow>
               (case map_of pool (stripExt (normalize idRaw) @ ''.txt'') of
                  Some f \<Rightarrow> IsFile f
                | None \<Rightarrow> NotFound)))"
  using assms by (simp add: resolveFileForId_def Let_def getProp_plain split: option.splits)

lemma parsedInRosterOrder_parsedFor:
  "parsedInRosterOrder rt pool sids =
     concat (map (\<lambda>sid. case parsedFor rt pool sid of Some p \<Rightarrow> [p] | None \<Rightarrow> []) sids)"
  unfolding parsedInRosterOrder_def parsedFor_def
  by (intro arg_cong [where f = concat] map_cong refl) (simp split: Resolved.splits)

lemma setObject_Inr:
  "setObject obj k v = Inr obj' \<Longrightarrow> map_of obj' = (map_of obj)(k \<mapsto> v)"
  by (auto simp: setObject_def AList.update_conv' split: if_splits)

lemma collect_parsedById:
  "collect rt pool sids acc = Inr c \<Longrightarrow>
     map_of (parsedById c) sid =
       (if sid \<in> set sids
        then (case parsedFor rt pool sid of
                Some p \<Rightarrow> Some p
              | None \<Rightarrow> map_of (parsedById acc) sid)
        else map_of (parsedById acc) sid)"
proof (induction sids arbitrary: acc)
  case Nil
  then show ?case by simp
next
  case (Cons s sids)
  show ?case
  proof (cases "resolveFileForId pool s")
    case (IsFile f)
    let ?p = "parseSubjectTxt rt (content f)"
    from Cons.prems IsFile obtain byId where
      b: "setObject (parsedById acc) s ?p = Inr byId"
      and c: "collect rt pool sids
               (acc\<lparr>parsedById := byId,
                    canonicalOrder := (if canonicalOrder acc = None \<and> order ?p \<noteq> []
                       then Some (order ?p) else canonicalOrder acc)\<rparr>) = Inr c"
      by (auto simp: Let_def split: sum.splits)
    have pf: "parsedFor rt pool s = Some ?p" using IsFile by (simp add: parsedFor_def)
    show ?thesis
      using Cons.IH [OF c] setObject_Inr [OF b] pf by (auto split: option.splits)
  next
    case NotAFile
    with Cons.prems show ?thesis by simp
  next
    case NotFound
    then have pf: "parsedFor rt pool s = None" by (simp add: parsedFor_def)
    from Cons.prems NotFound have
      "collect rt pool sids
         (acc\<lparr>warningsLocal := warningsLocal acc @ [''Missing file for ID: '' @ s]\<rparr>) = Inr c"
      by simp
    from Cons.IH [OF this] pf show ?thesis by (auto split: option.splits)
  qed
qed

lemma collect_resolved:
  "collect rt pool sids acc = Inr c \<Longrightarrow> sid \<in> set sids \<Longrightarrow>
     resolveFileForId pool sid \<noteq> NotAFile"
proof (induction sids arbitrary: acc)
  case (Cons s sids)
  then show ?case
    by (cases "resolveFileForId pool s") (auto simp: Let_def split: sum.splits)
qed simp

lemma collect_warnings:
  "collect rt pool sids acc = Inr c \<Longrightarrow>
     warningsLocal c = warningsLocal acc @ missingWarnings pool sids"
proof (induction sids arbitrary: acc)
  case (Cons s sids)
  then show ?case
    by (cases "resolveFileForId pool s")
       (fastforce simp: Let_def missingWarnings_def split: sum.splits)+
qed (simp add: missingWarnings_def)

lemma collect_canonicalOrder:
  "collect rt pool sids acc = Inr c \<Longrightarrow>
     canonicalOrder c =
       (case canonicalOrder acc of
          Some co \<Rightarrow> Some co
        | None \<Rightarrow>
            map_option order (find (\<lambda>p. order p \<noteq> []) (parsedInRosterOrder rt pool sids)))"
proof (induction sids arbitrary: acc)
  case Nil
  then show ?case by (simp add: parsedInRosterOrder_def split: option.splits)
next
  case (Cons s sids)
  show ?case
  proof (cases "resolveFileForId pool s")
    case (IsFile f)
    let ?p = "parseSubjectTxt rt (content f)"
    from Cons.prems IsFile obtain byId where
      c: "collect rt pool sids
               (acc\<lparr>parsedById := byId,
                    canonicalOrder := (if canonicalOrder acc = None \<and> order ?p \<noteq> []
                       then Some (order ?p) else canonicalOrder acc)\<rparr>) = Inr c"
      by (auto simp: Let_def split: sum.splits)
    show ?thesis
      using Cons.IH [OF c] IsFile by (auto simp: parsedInRosterOrder_def split: option.splits)
  next
    case NotAFile
    with Cons.prems show ?thesis by simp
  next
    case NotFound
    with Cons.prems have
      "collect rt pool sids
         (acc\<lparr>warningsLocal := warningsLocal acc @ [''Missing file for ID: '' @ s]\<rparr>) = Inr c"
      by simp
    from Cons.IH [OF this] NotFound show ?thesis
      by (simp add: parsedInRosterOrder_def split: option.splits)
  qed
qed

lemma collect_getProp:
  assumes "collect rt pool sids \<lparr>warningsLocal = [], parsedById = [], canonicalOrder = None\<rparr> = Inr c"
    and "sid \<in> set sids" "normalize sid = sid"
  shows "getProp (parsedById c) sid =
           (case parsedFor rt pool sid of Some p \<Rightarrow> Own p | None \<Rightarrow> Undefined)"
proof (cases "parsedFor rt pool sid")
  case None
  then have "resolveFileForId pool sid = NotFound"
    using collect_resolved [OF assms(1,2)]
    by (cases "resolveFileForId pool sid") (simp_all add: parsedFor_def)
  then have "sid \<notin> set objectPrototypeKeys" using resolve_NotFound assms(3) by fastforce
  moreover have "map_of (parsedById c) sid = None"
    using collect_parsedById [OF assms(1), of sid] assms(2) None by simp
  ultimately show ?thesis using None by (simp add: getProp_plain)
next
  case (Some p)
  then have "map_of (parsedById c) sid = Some p"
    using collect_parsedById [OF assms(1), of sid] assms(2) by simp
  then show ?thesis using Some by (simp add: getProp_own)
qed

lemma collect_ownRecords:
  assumes "collect rt pool sids \<lparr>warningsLocal = [], parsedById = [], canonicalOrder = None\<rparr> = Inr c"
    and "\<forall>sid\<in>set sids. normalize sid = sid"
  shows "ownRecords (parsedById c) sids = parsedInRosterOrder rt pool sids"
  unfolding ownRecords_def parsedInRosterOrder_parsedFor
  by (intro arg_cong [where f = concat] map_cong refl)
     (use assms in \<open>auto simp: collect_getProp split: option.splits\<close>)

lemma subjectsOrderOf_normal:
  "sid \<in> set (subjectsOrderOf rt col pRows) \<Longrightarrow> normalize sid = sid \<and> sid \<noteq> []"
  by (auto simp: subjectsOrderOf_def rowId_def normalize_def trim_trim)

section \<open>The canonical columns\<close>

lemma buildMatrix_table:
  assumes "buildMatrix rt st = Inr res" "header res \<noteq> []"
  obtains pt c metricCols seen where
    "participantsParsed st = Some pt" "idColumn st \<noteq> []"
    "subjectsOrderOf rt (idColumn st) (data pt) \<noteq> []"
    "collect rt (subjectFiles st) (subjectsOrderOf rt (idColumn st) (data pt))
       \<lparr>warningsLocal = [], parsedById = [], canonicalOrder = None\<rparr> = Inr c"
    "unify (parsedById c) (subjectsOrderOf rt (idColumn st) (data pt))
       (case canonicalOrder c of Some co \<Rightarrow> co | None \<Rightarrow> [],
        set (case canonicalOrder c of Some co \<Rightarrow> co | None \<Rightarrow> [])) = Inr (metricCols, seen)"
    "res = \<lparr>header = ''subject'' # metricCols @
                (if mergeCovariates st then covariateColsOf st pt else []),
            rows = map (buildRow rt st (data pt) (parsedById c) metricCols (covariateColsOf st pt))
                     (subjectsOrderOf rt (idColumn st) (data pt)),
            warnings = warningsLocal c, alert = None\<rparr>"
  using assms
  unfolding buildMatrix_def Let_def covariateColsOf_def emptyMatrix_def
  by (auto split: option.splits if_splits sum.splits prod.splits)

lemma buildMatrix_header_nonempty:
  assumes "buildMatrix rt st = Inr res" "participantsParsed st = Some pt" "idColumn st \<noteq> []"
    "subjectsOrderOf rt (idColumn st) (data pt) \<noteq> []"
  shows "header res \<noteq> []"
  using assms
  unfolding buildMatrix_def Let_def emptyMatrix_def
  by (auto split: option.splits if_splits sum.splits prod.splits)

lemma set_Object_keys [simp]: "set (Object_keys obj) = set (map fst obj)"
  by (auto simp: Object_keys_def)

lemma wellFormed_order_subset: "wellFormed p \<Longrightarrow> set (order p) \<subseteq> set (map fst (metrics p))"
  by (auto simp: wellFormed_def ownKeys_def)

lemma wellFormed_order_distinct: "wellFormed p \<Longrightarrow> distinct (order p)"
  by (auto simp: wellFormed_def)

lemma parsedInRosterOrder_wellFormed:
  "p \<in> set (parsedInRosterOrder rt pool sids) \<Longrightarrow> wellFormed p"
  by (auto simp: parsedInRosterOrder_def wellFormed_parseSubjectTxt split: Resolved.splits)

lemma set_discoveries:
  "\<forall>p\<in>set ps. wellFormed p \<Longrightarrow>
     set (discoveries ps) = (\<Union>p\<in>set ps. set (map fst (metrics p)))"
  using wellFormed_order_subset by (fastforce simp: discoveries_def)

lemma parsedInRosterOrder_nonempty:
  "parsedInRosterOrder rt pool sids \<noteq> [] \<Longrightarrow> sids \<noteq> []"
  by (auto simp: parsedInRosterOrder_def)

text \<open>
  C1: take a build that returns, with a roster, an identifier column, and among the
  parsed records of the roster's subjects, in roster order, a first one whose discovery
  order is not empty. The metric columns of the header are then the list
  \<open>unifiedColumns\<close>: the discovery order of that first record, followed by the other
  keys in the order of their first discovery, where the subjects are scanned in roster
  order and each brings its discovery order and then the keys of its mapping. The list has
  no duplicates, starts with the discovery order of the first record, and its elements
  are the keys of the mappings of all parsed records.
\<close>

theorem canonical_columns:
  assumes "buildMatrix rt st = Inr res"
    and "participantsParsed st = Some pt" "idColumn st \<noteq> []"
    and "ps = parsedInRosterOrder rt (subjectFiles st)
                (subjectsOrderOf rt (idColumn st) (data pt))"
    and "find (\<lambda>p. order p \<noteq> []) ps = Some first"
  shows "header res = ''subject'' # unifiedColumns first ps @
           (if mergeCovariates st then covariateColsOf st pt else []) \<and>
         distinct (unifiedColumns first ps) \<and>
         take (length (order first)) (unifiedColumns first ps) = order first \<and>
         set (unifiedColumns first ps) = (\<Union>p\<in>set ps. set (map fst (metrics p)))"
proof -
  let ?sids = "subjectsOrderOf rt (idColumn st) (data pt)"
  have first: "first \<in> set ps" "order first \<noteq> []"
    using assms(5) by (auto simp: find_Some_iff)
  then have "ps \<noteq> []" by auto
  then have "?sids \<noteq> []"
    using assms(4) parsedInRosterOrder_nonempty by blast
  then have "header res \<noteq> []"
    using buildMatrix_header_nonempty assms(1,2,3) by blast
  with assms(1) obtain pt' c metricCols seen where
    t: "participantsParsed st = Some pt'" "idColumn st \<noteq> []"
      "subjectsOrderOf rt (idColumn st) (data pt') \<noteq> []"
      "collect rt (subjectFiles st) (subjectsOrderOf rt (idColumn st) (data pt'))
        \<lparr>warningsLocal = [], parsedById = [], canonicalOrder = None\<rparr> = Inr c"
      "unify (parsedById c) (subjectsOrderOf rt (idColumn st) (data pt'))
        (case canonicalOrder c of Some co \<Rightarrow> co | None \<Rightarrow> [],
         set (case canonicalOrder c of Some co \<Rightarrow> co | None \<Rightarrow> [])) = Inr (metricCols, seen)"
      "res = \<lparr>header = ''subject'' # metricCols @
                (if mergeCovariates st then covariateColsOf st pt' else []),
            rows = map (buildRow rt st (data pt') (parsedById c) metricCols (covariateColsOf st pt'))
                     (subjectsOrderOf rt (idColumn st) (data pt')),
            warnings = warningsLocal c, alert = None\<rparr>"
    by (rule buildMatrix_table)
  from t(1) assms(2) have pt: "pt' = pt" by simp
  have norm: "\<forall>sid\<in>set ?sids. normalize sid = sid"
    using subjectsOrderOf_normal by blast
  have own: "ownRecords (parsedById c) ?sids = ps"
    using collect_ownRecords [OF t(4) [unfolded pt] norm] assms(4) by simp
  have seed: "canonicalOrder c = Some (order first)"
    using collect_canonicalOrder [OF t(4) [unfolded pt]] assms(4,5) by simp
  have cols: "metricCols = unifiedColumns first ps"
    using unify_extendCols [OF t(5) [unfolded pt seed, simplified]] own
    by (simp add: unifiedColumns_def extendCols_def)
  have wf: "\<forall>p\<in>set ps. wellFormed p"
    using assms(4) parsedInRosterOrder_wellFormed by blast
  have "distinct (order first)"
    using wf first(1) wellFormed_order_distinct by blast
  then have d: "distinct (unifiedColumns first ps)"
    by (auto simp: unifiedColumns_def)
  have "set (order first) \<subseteq> set (discoveries ps)"
    using first(1) by (auto simp: discoveries_def)
  then have s: "set (unifiedColumns first ps) = (\<Union>p\<in>set ps. set (map fst (metrics p)))"
    using set_discoveries [OF wf] by (auto simp: unifiedColumns_def)
  show ?thesis
    using t(6) pt cols d s by (simp add: unifiedColumns_def)
qed

theorem canonical_columns_witness:
  "buildMatrix exampleEngine stateAB = Inr tableAB \<and>
   parsedInRosterOrder exampleEngine (subjectFiles stateAB)
     (subjectsOrderOf exampleEngine (idColumn stateAB) (data rosterAB)) = [parsedA, parsedB] \<and>
   find (\<lambda>p. order p \<noteq> []) [parsedA, parsedB] = Some parsedA \<and>
   unifiedColumns parsedA [parsedA, parsedB] = [''X'', ''Y'', ''Z''] \<and>
   header tableAB = ''subject'' # unifiedColumns parsedA [parsedA, parsedB] \<and>
   distinct (unifiedColumns parsedA [parsedA, parsedB]) \<and>
   take (length (order parsedA)) (unifiedColumns parsedA [parsedA, parsedB]) = order parsedA \<and>
   set (unifiedColumns parsedA [parsedA, parsedB]) =
     (\<Union>p\<in>set [parsedA, parsedB]. set (map fst (metrics p)))"
proof -
  have b: "buildMatrix exampleEngine stateAB = Inr tableAB"
    by code_simp
  have r: "participantsParsed stateAB = Some rosterAB" and i: "idColumn stateAB \<noteq> []"
    and m: "mergeCovariates stateAB = False"
    by (simp_all add: stateAB_def)
  have p: "parsedInRosterOrder exampleEngine (subjectFiles stateAB)
     (subjectsOrderOf exampleEngine (idColumn stateAB) (data rosterAB)) = [parsedA, parsedB]"
    by code_simp
  have f: "find (\<lambda>p. order p \<noteq> []) [parsedA, parsedB] = Some parsedA"
    by (simp add: parsedA_def)
  have u: "unifiedColumns parsedA [parsedA, parsedB] = [''X'', ''Y'', ''Z'']"
    by code_simp
  from canonical_columns [OF b r i p [symmetric] f] m b p f u show ?thesis
    by (simp only: if_False append_Nil2 simp_thms)
qed

section \<open>The table\<close>

lemma length_buildRow:
  "length (buildRow rt st pRows byId metricCols covariateCols sid) =
     1 + length metricCols + (if mergeCovariates st then length covariateCols else 0)"
  by (simp add: buildRow_def Let_def)

text \<open>
  C10: in a build that returns a table with a header, every row is as long as the
  header: the label, one cell for each metric column and, with covariates, one cell for
  each covariate column. The cells are strings by the type of the rows.
\<close>

theorem rows_match_header:
  assumes "buildMatrix rt st = Inr res" "header res \<noteq> []"
  shows "(\<forall>row\<in>set (rows res). length row = length (header res)) \<and>
         (\<exists>pt metricCols.
            participantsParsed st = Some pt \<and>
            header res = ''subject'' # metricCols @
              (if mergeCovariates st then covariateColsOf st pt else []) \<and>
            (\<forall>row\<in>set (rows res).
               length row = 1 + length metricCols +
                 (if mergeCovariates st then length (covariateColsOf st pt) else 0)))"
proof -
  from assms obtain pt c metricCols seen where
    t: "participantsParsed st = Some pt" "idColumn st \<noteq> []"
    "subjectsOrderOf rt (idColumn st) (data pt) \<noteq> []"
    "collect rt (subjectFiles st) (subjectsOrderOf rt (idColumn st) (data pt))
       \<lparr>warningsLocal = [], parsedById = [], canonicalOrder = None\<rparr> = Inr c"
    "unify (parsedById c) (subjectsOrderOf rt (idColumn st) (data pt))
       (case canonicalOrder c of Some co \<Rightarrow> co | None \<Rightarrow> [],
        set (case canonicalOrder c of Some co \<Rightarrow> co | None \<Rightarrow> [])) = Inr (metricCols, seen)"
    "res = \<lparr>header = ''subject'' # metricCols @
                (if mergeCovariates st then covariateColsOf st pt else []),
            rows = map (buildRow rt st (data pt) (parsedById c) metricCols (covariateColsOf st pt))
                     (subjectsOrderOf rt (idColumn st) (data pt)),
            warnings = warningsLocal c, alert = None\<rparr>"
    by (rule buildMatrix_table)
  have r: "\<forall>row\<in>set (rows res).
               length row = 1 + length metricCols +
                 (if mergeCovariates st then length (covariateColsOf st pt) else 0)"
    using t(6) by (auto simp: length_buildRow)
  moreover have "length (header res) = 1 + length metricCols +
                 (if mergeCovariates st then length (covariateColsOf st pt) else 0)"
    using t(6) by simp
  ultimately show ?thesis using t(1,6) by auto
qed

theorem rows_match_header_witness:
  "buildMatrix exampleEngine exampleState = Inr exampleTable \<and>
   header exampleTable = [''subject'', ''Left-Hippocampus'', ''Right-Hippocampus'', ''age''] \<and>
   list_all (\<lambda>row. length row = length (header exampleTable)) (rows exampleTable)"
proof -
  have b: "buildMatrix exampleEngine exampleState = Inr exampleTable"
    by code_simp
  have h: "header exampleTable \<noteq> []"
    and e: "header exampleTable =
      [''subject'', ''Left-Hippocampus'', ''Right-Hippocampus'', ''age'']"
    by (simp_all add: exampleTable_def)
  from rows_match_header [OF b h]
  have "\<forall>row\<in>set (rows exampleTable). length row = length (header exampleTable)"
    by (rule conjunct1)
  then have "list_all (\<lambda>row. length row = length (header exampleTable)) (rows exampleTable)"
    by (simp only: list_all_iff)
  with b e show ?thesis by (simp only: simp_thms)
qed

lemma find_filter_implied:
  "(\<And>x. Q x \<Longrightarrow> P x) \<Longrightarrow> find Q (filter P xs) = find Q xs"
  by (induction xs) auto

lemma subjectsOrderOf_filter:
  "subjectsOrderOf rt col (filter (\<lambda>r. rowId rt col r \<noteq> []) pRows) = subjectsOrderOf rt col pRows"
  by (induction pRows) (auto simp: subjectsOrderOf_def)

lemma subjectsOrderOf_map:
  "subjectsOrderOf rt col pRows = map (rowId rt col) (filter (\<lambda>r. rowId rt col r \<noteq> []) pRows)"
  by (induction pRows) (auto simp: subjectsOrderOf_def)

lemma buildRow_filter:
  assumes "sid \<noteq> []"
  shows "buildRow rt (st\<lparr>participantsParsed := pp\<rparr>)
           (filter (\<lambda>r. rowId rt (idColumn st) r \<noteq> []) pRows) byId metricCols covariateCols sid =
         buildRow rt (st\<lparr>participantsParsed := qq\<rparr>) pRows byId metricCols covariateCols sid"
proof -
  have "find (\<lambda>r. rowId rt (idColumn st) r = sid)
          (filter (\<lambda>r. rowId rt (idColumn st) r \<noteq> []) pRows) =
        find (\<lambda>r. rowId rt (idColumn st) r = sid) pRows"
    using assms by (intro find_filter_implied) auto
  then show ?thesis by (simp add: buildRow_def Let_def)
qed

lemma buildMatrix_filter:
  "buildMatrix rt (st\<lparr>participantsParsed :=
       Some (pt\<lparr>data := filter (\<lambda>r. rowId rt (idColumn st) r \<noteq> []) (data pt)\<rparr>)\<rparr>) =
   buildMatrix rt (st\<lparr>participantsParsed := Some pt\<rparr>)"
proof -
  let ?sids = "subjectsOrderOf rt (idColumn st) (data pt)"
  show ?thesis
  proof (cases "idColumn st = [] \<or> ?sids = []")
    case True
    then show ?thesis
      by (auto simp: buildMatrix_def Let_def subjectsOrderOf_filter)
  next
    case False
    show ?thesis
    proof (cases "collect rt (subjectFiles st) ?sids
        \<lparr>warningsLocal = [], parsedById = [], canonicalOrder = None\<rparr>")
      case (Inl e)
      with False show ?thesis
        by (simp add: buildMatrix_def Let_def subjectsOrderOf_filter)
    next
      case (Inr c)
      show ?thesis
      proof (cases "unify (parsedById c) ?sids
          (case canonicalOrder c of Some co \<Rightarrow> co | None \<Rightarrow> [],
           set (case canonicalOrder c of Some co \<Rightarrow> co | None \<Rightarrow> []))")
        case (Inl e)
        with False Inr show ?thesis
          by (simp add: buildMatrix_def Let_def subjectsOrderOf_filter)
      next
        case u: (Inr r)
        obtain cols seen where "r = (cols, seen)" by (cases r)
        with False Inr u show ?thesis
          by (simp add: buildMatrix_def Let_def subjectsOrderOf_filter)
             (auto intro!: buildRow_filter dest: subjectsOrderOf_normal)
      qed
    qed
  qed
qed

text \<open>
  C9: the subject order is the list of the identifiers of the roster rows whose
  identifier is not empty after trimming. A build gives the same result, whether a table
  with its warnings, an alert or no table at all, as the build on the roster without the
  rows whose identifier is empty; and when it returns a table, the table has one row for
  each roster row with an identifier, and its warnings are the missing-file warnings of
  the subject order.
\<close>

theorem blank_ids_excluded:
  "subjectsOrderOf rt (idColumn st) (data pt) =
     map (rowId rt (idColumn st)) (filter (\<lambda>r. rowId rt (idColumn st) r \<noteq> []) (data pt)) \<and>
   buildMatrix rt (st\<lparr>participantsParsed := Some pt\<rparr>) =
     buildMatrix rt (st\<lparr>participantsParsed :=
       Some (pt\<lparr>data := filter (\<lambda>r. rowId rt (idColumn st) r \<noteq> []) (data pt)\<rparr>)\<rparr>) \<and>
   (buildMatrix rt (st\<lparr>participantsParsed := Some pt\<rparr>) = Inr res \<and> header res \<noteq> [] \<longrightarrow>
      length (rows res) = length (filter (\<lambda>r. rowId rt (idColumn st) r \<noteq> []) (data pt)) \<and>
      warnings res = missingWarnings (subjectFiles st) (subjectsOrderOf rt (idColumn st) (data pt)))"
proof -
  let ?st = "st\<lparr>participantsParsed := Some pt\<rparr>"
  have 3: "buildMatrix rt ?st = Inr res \<and> header res \<noteq> [] \<longrightarrow>
      length (rows res) = length (filter (\<lambda>r. rowId rt (idColumn st) r \<noteq> []) (data pt)) \<and>
      warnings res = missingWarnings (subjectFiles st) (subjectsOrderOf rt (idColumn st) (data pt))"
  proof (intro impI, elim conjE)
    assume a: "buildMatrix rt ?st = Inr res" "header res \<noteq> []"
    from a obtain pt' c metricCols seen where
      t: "participantsParsed ?st = Some pt'" "idColumn ?st \<noteq> []"
        "subjectsOrderOf rt (idColumn ?st) (data pt') \<noteq> []"
        "collect rt (subjectFiles ?st) (subjectsOrderOf rt (idColumn ?st) (data pt'))
          \<lparr>warningsLocal = [], parsedById = [], canonicalOrder = None\<rparr> = Inr c"
        "unify (parsedById c) (subjectsOrderOf rt (idColumn ?st) (data pt'))
          (case canonicalOrder c of Some co \<Rightarrow> co | None \<Rightarrow> [],
           set (case canonicalOrder c of Some co \<Rightarrow> co | None \<Rightarrow> [])) = Inr (metricCols, seen)"
        "res = \<lparr>header = ''subject'' # metricCols @
                (if mergeCovariates ?st then covariateColsOf ?st pt' else []),
            rows = map (buildRow rt ?st (data pt') (parsedById c) metricCols (covariateColsOf ?st pt'))
                     (subjectsOrderOf rt (idColumn ?st) (data pt')),
            warnings = warningsLocal c, alert = None\<rparr>"
      by (rule buildMatrix_table)
    from t(1) have pt: "pt' = pt" by simp
    have w: "warningsLocal c =
        missingWarnings (subjectFiles st) (subjectsOrderOf rt (idColumn st) (data pt))"
      using collect_warnings [OF t(4)] pt by simp
    have "length (rows res) = length (subjectsOrderOf rt (idColumn st) (data pt))"
      by (subst t(6)) (simp add: pt)
    moreover have "warnings res = warningsLocal c"
      by (subst t(6)) simp
    ultimately show
      "length (rows res) = length (filter (\<lambda>r. rowId rt (idColumn st) r \<noteq> []) (data pt)) \<and>
       warnings res = missingWarnings (subjectFiles st) (subjectsOrderOf rt (idColumn st) (data pt))"
      using w by (simp add: subjectsOrderOf_map)
  qed
  show ?thesis
    by (rule conjI [OF subjectsOrderOf_map conjI [OF buildMatrix_filter [symmetric] 3]])
qed

theorem blank_ids_excluded_witness:
  "rowId exampleEngine ''participant_id'' [(''participant_id'', ''  ''), (''age'', ''40'')] = [] \<and>
   subjectsOrderOf exampleEngine ''participant_id'' (data exampleRoster) =
     [''sub-001'', ''sub-002''] \<and>
   buildMatrix exampleEngine exampleState = Inr exampleTable \<and>
   buildMatrix exampleEngine
     (exampleState\<lparr>participantsParsed :=
        Some (exampleRoster\<lparr>data := [[(''participant_id'', ''sub-001''), (''age'', ''31'')],
                                     [(''participant_id'', ''sub-002''), (''age'', ''27'')]]\<rparr>)\<rparr>) =
     Inr exampleTable \<and>
   length (rows exampleTable) = 2 \<and>
   warnings exampleTable = [''Missing file for ID: sub-002'']"
proof -
  have b: "buildMatrix exampleEngine exampleState = Inr exampleTable"
    by code_simp
  have h: "header exampleTable \<noteq> []"
    by (simp add: exampleTable_def)
  have s: "exampleState\<lparr>participantsParsed := Some exampleRoster\<rparr> = exampleState"
    and i: "idColumn exampleState = ''participant_id''"
    by (simp_all add: exampleState_def)
  have blank: "rowId exampleEngine ''participant_id''
      [(''participant_id'', ''  ''), (''age'', ''40'')] = []"
    by code_simp
  have f: "filter (\<lambda>r. rowId exampleEngine ''participant_id'' r \<noteq> []) (data exampleRoster) =
      [[(''participant_id'', ''sub-001''), (''age'', ''31'')],
       [(''participant_id'', ''sub-002''), (''age'', ''27'')]]"
    by code_simp
  have o: "map (rowId exampleEngine ''participant_id'')
      [[(''participant_id'', ''sub-001''), (''age'', ''31'')],
       [(''participant_id'', ''sub-002''), (''age'', ''27'')]] = [''sub-001'', ''sub-002'']"
    by code_simp
  have w: "missingWarnings (subjectFiles exampleState) [''sub-001'', ''sub-002''] =
      [''Missing file for ID: sub-002'']"
    by code_simp
  from blank_ids_excluded [of exampleEngine exampleState exampleRoster exampleTable]
  show ?thesis
    unfolding s i f o using b h blank w by simp
qed

text \<open>
  Every warning of a build is the missing-file warning of a subject of the roster: the
  build has no other warning.
\<close>

lemma warnings_missing_only:
  assumes "buildMatrix rt st = Inr res" "w \<in> set (warnings res)"
  shows "\<exists>sid. sid \<noteq> [] \<and> resolveFileForId (subjectFiles st) sid = NotFound \<and>
           w = ''Missing file for ID: '' @ sid"
proof -
  from assms have "header res \<noteq> []"
    by (auto simp: buildMatrix_def Let_def emptyMatrix_def
        split: option.splits if_splits sum.splits prod.splits)
  with assms(1) obtain pt c metricCols seen where
    t: "participantsParsed st = Some pt" "idColumn st \<noteq> []"
    "subjectsOrderOf rt (idColumn st) (data pt) \<noteq> []"
    "collect rt (subjectFiles st) (subjectsOrderOf rt (idColumn st) (data pt))
       \<lparr>warningsLocal = [], parsedById = [], canonicalOrder = None\<rparr> = Inr c"
    "unify (parsedById c) (subjectsOrderOf rt (idColumn st) (data pt))
       (case canonicalOrder c of Some co \<Rightarrow> co | None \<Rightarrow> [],
        set (case canonicalOrder c of Some co \<Rightarrow> co | None \<Rightarrow> [])) = Inr (metricCols, seen)"
    "res = \<lparr>header = ''subject'' # metricCols @
                (if mergeCovariates st then covariateColsOf st pt else []),
            rows = map (buildRow rt st (data pt) (parsedById c) metricCols (covariateColsOf st pt))
                     (subjectsOrderOf rt (idColumn st) (data pt)),
            warnings = warningsLocal c, alert = None\<rparr>"
    by (rule buildMatrix_table)
  have "warnings res =
      missingWarnings (subjectFiles st) (subjectsOrderOf rt (idColumn st) (data pt))"
    using collect_warnings [OF t(4)] by (subst t(6)) simp
  with assms(2) show ?thesis
    using subjectsOrderOf_normal by (fastforce simp: missingWarnings_def)
qed

text \<open>
  C5 fails: an uploaded file that no roster identifier names is ignored without a
  warning. The pool holds the files of \<^verbatim>\<open>sub-001\<close> and \<^verbatim>\<open>sub-999\<close>, the roster names
  \<^verbatim>\<open>sub-001\<close> only, and the build returns no warning.
\<close>

theorem unmatched_file_no_warning:
  "handleSubjectsInput [fileSub001, fileExtra] = Inr (subjectFiles stateExtraFile) \<and>
   buildMatrix exampleEngine stateExtraFile =
     Inr \<lparr>header = [''subject'', ''Left-Hippocampus'', ''Right-Hippocampus''],
          rows = [[''sub-001'', ''3500'', ''3600'']],
          warnings = [],
          alert = None\<rparr>"
  by code_simp

text \<open>
  C7 fails on an identifier that is a name of \<^verbatim>\<open>Object.prototype\<close>: with an empty
  pool, and with a pool that has no file of that name, the lookup under
  \<^verbatim>\<open>constructor\<close> finds the inherited function, which is truthy, and the resolver
  returns it where no file matches.
\<close>

theorem inherited_name_resolves:
  "resolveFileForId [] ''constructor'' = NotAFile \<and>
   map_of (subjectFiles exampleState) ''constructor'' = None \<and>
   map_of (subjectFiles exampleState) ''constructor.txt'' = None \<and>
   resolveFileForId (subjectFiles exampleState) ''constructor'' = NotAFile"
  by code_simp

lemma textOf_absent:
  "k \<notin> set objectPrototypeKeys \<Longrightarrow> textOf rt own (getProp [] k) = []"
  by (simp add: getProp_plain textOf_def)

text \<open>
  In a build that returns, a subject for which the resolver finds nothing has its
  missing-file warning, and the metric cells of its row are read from the empty mapping:
  a cell is the empty string under every column that is not a name of
  \<^verbatim>\<open>Object.prototype\<close>.
\<close>

lemma missing_file_row:
  assumes "buildMatrix rt st = Inr res" "participantsParsed st = Some pt" "idColumn st \<noteq> []"
    and "i < length (subjectsOrderOf rt (idColumn st) (data pt))"
    and "resolveFileForId (subjectFiles st) (subjectsOrderOf rt (idColumn st) (data pt) ! i) = NotFound"
  shows "''Missing file for ID: '' @ subjectsOrderOf rt (idColumn st) (data pt) ! i
           \<in> set (warnings res) \<and>
         (\<exists>metricCols.
            header res = ''subject'' # metricCols @
              (if mergeCovariates st then covariateColsOf st pt else []) \<and>
            take (length metricCols) (tl (rows res ! i)) =
              map (\<lambda>k. textOf rt (valueText rt) (getProp [] k)) metricCols)"
proof -
  let ?sids = "subjectsOrderOf rt (idColumn st) (data pt)"
  let ?sid = "?sids ! i"
  have sid: "?sid \<in> set ?sids" using assms(4) by simp
  then have "?sids \<noteq> []" by auto
  then have "header res \<noteq> []"
    using buildMatrix_header_nonempty assms(1,2,3) by blast
  with assms(1) obtain pt' c metricCols seen where
    t: "participantsParsed st = Some pt'" "idColumn st \<noteq> []"
      "subjectsOrderOf rt (idColumn st) (data pt') \<noteq> []"
      "collect rt (subjectFiles st) (subjectsOrderOf rt (idColumn st) (data pt'))
        \<lparr>warningsLocal = [], parsedById = [], canonicalOrder = None\<rparr> = Inr c"
      "unify (parsedById c) (subjectsOrderOf rt (idColumn st) (data pt'))
        (case canonicalOrder c of Some co \<Rightarrow> co | None \<Rightarrow> [],
         set (case canonicalOrder c of Some co \<Rightarrow> co | None \<Rightarrow> [])) = Inr (metricCols, seen)"
      "res = \<lparr>header = ''subject'' # metricCols @
                (if mergeCovariates st then covariateColsOf st pt' else []),
            rows = map (buildRow rt st (data pt') (parsedById c) metricCols (covariateColsOf st pt'))
                     (subjectsOrderOf rt (idColumn st) (data pt')),
            warnings = warningsLocal c, alert = None\<rparr>"
    by (rule buildMatrix_table)
  from t(1) assms(2) have pt: "pt' = pt" by simp
  have "warnings res = missingWarnings (subjectFiles st) ?sids"
    using collect_warnings [OF t(4)] pt by (subst t(6)) simp
  then have w: "''Missing file for ID: '' @ ?sid \<in> set (warnings res)"
    using sid assms(5) by (auto simp: missingWarnings_def)
  have "parsedFor rt (subjectFiles st) ?sid = None"
    using assms(5) by (simp add: parsedFor_def)
  then have "getProp (parsedById c) ?sid = Undefined"
    using collect_getProp [OF t(4) [unfolded pt] sid] subjectsOrderOf_normal [OF sid] by simp
  then have "take (length metricCols)
      (tl (buildRow rt st (data pt) (parsedById c) metricCols (covariateColsOf st pt) ?sid)) =
      map (\<lambda>k. textOf rt (valueText rt) (getProp [] k)) metricCols"
    by (simp add: buildRow_def Let_def)
  moreover have "rows res ! i =
      buildRow rt st (data pt) (parsedById c) metricCols (covariateColsOf st pt) ?sid"
    using assms(4) pt by (subst t(6)) simp
  moreover have "header res = ''subject'' # metricCols @
      (if mergeCovariates st then covariateColsOf st pt else [])"
    using pt by (subst t(6)) simp
  ultimately show ?thesis using w by auto
qed

text \<open>
  C8 fails where a name of \<^verbatim>\<open>Object.prototype\<close> is involved. With a metric column
  \<^verbatim>\<open>constructor\<close>, the row of a subject without a file reads the inherited function
  from its empty mapping, and the cell is the text of that function, not the empty
  string. With a roster identifier \<^verbatim>\<open>valueOf\<close> and no file, the resolver returns the
  inherited function, reading its text raises the exception, and the build returns
  neither a warning nor a row.
\<close>

theorem missing_file_row_not_blank:
  "resolveFileForId (subjectFiles stateConstructor) ''b'' = NotFound \<and>
   buildMatrix exampleEngine stateConstructor =
     Inr \<lparr>header = [''subject'', ''constructor''],
          rows = [[''a'', ''1''], [''b'', ''function Object() { [native code] }'']],
          warnings = [''Missing file for ID: b''],
          alert = None\<rparr> \<and>
   buildMatrix rt stateValueOf = Inl TypeError"
  by code_simp

section \<open>Where the model stops\<close>

lemma setObject_keys:
  "setObject obj k v = Inr obj' \<Longrightarrow> ''__proto__'' \<notin> set (map fst obj) \<Longrightarrow>
     ''__proto__'' \<notin> set (map fst obj')"
proof -
  assume a: "setObject obj k v = Inr obj'" and b: "''__proto__'' \<notin> set (map fst obj)"
  from a b have "k \<noteq> ''__proto__''" and "obj' = AList.update k v obj"
    by (auto simp: setObject_def split: if_splits)
  then have "set (map fst obj') = insert k (set (map fst obj))"
    by (auto simp: AList.update_keys)
  with b \<open>k \<noteq> ''__proto__''\<close> show ?thesis by simp
qed

lemma indexFiles_keys:
  "indexFiles m fs = Inr pool \<Longrightarrow> ''__proto__'' \<notin> set (map fst m) \<Longrightarrow>
     ''__proto__'' \<notin> set (map fst pool)"
proof (induction fs arbitrary: m)
  case (Cons f fs)
  from Cons.prems(1) obtain m1 m2 where
    s: "setObject m (normalize (name f)) f = Inr m1"
       "setObject m1 (stripExt (normalize (name f))) f = Inr m2"
       "indexFiles m2 fs = Inr pool"
    by (auto simp: Let_def split: sum.splits)
  have "''__proto__'' \<notin> set (map fst m2)"
    using setObject_keys [OF s(2) setObject_keys [OF s(1) Cons.prems(2)]] .
  with Cons.IH [OF s(3)] show ?case .
qed simp

lemma handleSubjectsInput_keys:
  "handleSubjectsInput files = Inr pool \<Longrightarrow> ''__proto__'' \<notin> set (map fst pool)"
  using indexFiles_keys [of "[]" files pool] by (simp add: handleSubjectsInput_def)

lemma resolve_proto:
  assumes "''__proto__'' \<notin> set (map fst pool)"
  shows "resolveFileForId pool ''__proto__'' = NotAFile"
proof -
  have n: "normalize ''__proto__'' = ''__proto__''"
    by (simp add: normalize_def trim_def isSpace_simps)
  have "map_of pool ''__proto__'' = None"
    using assms by (simp add: map_of_eq_None_iff)
  then have "getProp pool ''__proto__'' = Prototype"
    by (simp add: getProp_def)
  then show ?thesis
    by (simp add: resolveFileForId_def Let_def n)
qed

lemma collect_no_replacement:
  "''__proto__'' \<notin> set (map fst pool) \<Longrightarrow> collect rt pool sids acc \<noteq> Inl PrototypeReplaced"
proof (induction sids arbitrary: acc)
  case (Cons s sids)
  show ?case
  proof (cases "resolveFileForId pool s")
    case (IsFile f)
    then have "s \<noteq> ''__proto__''"
      using resolve_proto [OF Cons.prems] by auto
    then show ?thesis
      using IsFile Cons.IH [OF Cons.prems] by (simp add: Let_def setObject_def)
  next
    case NotAFile
    then show ?thesis by simp
  next
    case NotFound
    then show ?thesis using Cons.IH [OF Cons.prems] by simp
  qed
qed simp

lemma unify_no_replacement: "unify byId sids acc \<noteq> Inl PrototypeReplaced"
  by (induction sids arbitrary: acc) (auto split: Lookup.splits)

text \<open>
  The model stops with \<open>PrototypeReplaced\<close> only for an uploaded file named
  \<^verbatim>\<open>__proto__\<close>, with or without an extension: a build on a pool that
  \<^verbatim>\<open>handleSubjectsInput\<close> returns ends with a table, an alert or the exception.
\<close>

lemma buildMatrix_no_replacement:
  assumes "handleSubjectsInput files = Inr (subjectFiles st)"
  shows "buildMatrix rt st \<noteq> Inl PrototypeReplaced"
proof -
  have c: "collect rt (subjectFiles st) sids acc \<noteq> Inl PrototypeReplaced" for sids acc
    by (rule collect_no_replacement [OF handleSubjectsInput_keys [OF assms]])
  show ?thesis
    unfolding buildMatrix_def Let_def emptyMatrix_def
    by (auto simp: c unify_no_replacement split: option.splits sum.splits prod.splits)
qed

end
